theory Spec2Isabelle
  imports Main
begin

section \<open>Common types\<close>

text \<open>
  A \<open>DateTimeField\<close> value is a point in time with microsecond resolution; it is modelled as
  the number of microseconds since the Unix epoch.  \<open>timedelta.total_seconds()\<close> and
  \<open>datetime.timestamp()\<close> are the quotient by \<open>10^6\<close> in double precision, and Python's
  \<open>int(...)\<close> of such a quotient truncates toward zero.
\<close>

type_synonym datetime = int

definition int_seconds :: "int \<Rightarrow> int" where
  \<comment> \<open>\<open>int(micros / 10^6)\<close>: truncation toward zero\<close>
  "int_seconds micros =
     (if 0 \<le> micros then micros div 1000000 else - ((- micros) div 1000000))"

text \<open>
  \<open>int((ended_at - started_at).total_seconds())\<close>.  Below \<open>2^32\<close> seconds the rounding of the
  quotient stays under half a microsecond, so that the truncation is that of the exact
  quotient.  For a longer interval the result depends on the rounding, which is not
  modelled: there it is the value of the parameter \<open>float_seconds\<close>.
\<close>

definition duration_seconds :: "(int \<Rightarrow> int) \<Rightarrow> int \<Rightarrow> int" where
  "duration_seconds float_seconds micros =
     (if \<bar>micros\<bar> < 4294967296 * 1000000 then int_seconds micros
      else float_seconds micros)"

text \<open>
  Exceptions that escape a view (answered with status 500) and the error responses.
  \<open>DatabaseError\<close> stands for the refusal of a statement by the database or its driver: a
  violated constraint (\<open>IntegrityError\<close>) or a value that a column does not take (\<open>DataError\<close>,
  or the driver's \<open>OverflowError\<close>).
\<close>

datatype exn =
    ValueError
  | StreamDoesNotExist
  | UserDoesNotExist
  | SessionDoesNotExist
  | MultipleObjectsReturned
  | DatabaseError

datatype error =
    NotFound
  | StreamOffline
  | QualityForbidden string string
  | ServerError exn

fun status_code :: "error \<Rightarrow> nat" where
  "status_code NotFound = 404"
| "status_code StreamOffline = 400"
| "status_code (QualityForbidden q mx) = 403"
| "status_code (ServerError e) = 500"

section \<open>apps/users/models.py\<close>

definition FREE :: string where "FREE = ''FREE''"
definition BASIC :: string where "BASIC = ''BASIC''"
definition PREMIUM :: string where "PREMIUM = ''PREMIUM''"
definition ULTRA :: string where "ULTRA = ''ULTRA''"

record user =
  user_pk :: nat
  is_staff :: bool
  email :: string
  phone_number :: string
  subscription_tier :: string
  subscription_expires :: "datetime option"
  isp_customer_id :: string
  isp_account_number :: string
  zero_rated :: bool
  monthly_data_used :: int
  total_watch_time :: int
  preferred_quality :: string
  auto_play :: bool
  user_created_at :: datetime
  user_updated_at :: datetime
  last_login_ip :: "string option"

definition quality_map :: "(string \<times> string) list" where
  "quality_map =
     [(FREE, ''360p''), (BASIC, ''480p''), (PREMIUM, ''720p''), (ULTRA, ''1080p'')]"

definition max_quality :: "user \<Rightarrow> string" where
  \<comment> \<open>\<open>quality_map.get(self.subscription_tier, '360p')\<close>\<close>
  "max_quality u =
     (case map_of quality_map (subscription_tier u) of Some q \<Rightarrow> q | None \<Rightarrow> ''360p'')"

definition quality_hierarchy :: "string list" where
  "quality_hierarchy = [''360p'', ''480p'', ''720p'', ''1080p'']"

fun index_of :: "'a list \<Rightarrow> 'a \<Rightarrow> nat option" where
  \<comment> \<open>\<open>list.index\<close>: position of the first occurrence; \<open>None\<close> stands for ValueError\<close>
  "index_of [] x = None"
| "index_of (y # ys) x = (if y = x then Some 0 else map_option Suc (index_of ys x))"

definition can_watch_quality :: "user \<Rightarrow> string \<Rightarrow> exn + bool" where
  \<comment> \<open>the first \<open>index\<close> call is outside the \<open>try\<close>, the second one inside\<close>
  "can_watch_quality u quality =
     (case index_of quality_hierarchy (max_quality u) of
        None \<Rightarrow> Inl ValueError
      | Some max_idx \<Rightarrow>
          (case index_of quality_hierarchy quality of
             Some req_idx \<Rightarrow> Inr (req_idx \<le> max_idx)
           | None \<Rightarrow> Inr False))"

text \<open>
  The rank of a quality label as the specification words it: its position in the ordered
  sequence 360p, 480p, 720p, 1080p.  Used only to state the refinement.
\<close>

definition spec_rank :: "string \<Rightarrow> nat option" where
  "spec_rank q =
     (if q = ''360p'' then Some 0 else if q = ''480p'' then Some 1
      else if q = ''720p'' then Some 2 else if q = ''1080p'' then Some 3 else None)"

section \<open>apps/streams/models.py: Stream\<close>

definition OFFLINE :: string where "OFFLINE = ''OFFLINE''"
definition ONLINE :: string where "ONLINE = ''ONLINE''"
definition STARTING :: string where "STARTING = ''STARTING''"
definition ERROR :: string where "ERROR = ''ERROR''"

record stream =
  stream_pk :: nat
  stream_key :: string
  name :: string
  description :: string
  status :: string
  rtmp_url :: string
  hls_master_url :: string
  available_qualities :: "string list"
  default_quality :: string
  current_viewers :: int
  total_views :: int
  peak_viewers :: int
  recording_enabled :: bool
  recording_path :: string
  thumbnail_url :: string
  started_at :: "datetime option"
  ended_at :: "datetime option"
  created_at :: datetime
  updated_at :: datetime

text \<open>The two entries of \<open>settings.STREAMING_CONFIG\<close> that signing reads.\<close>

record streaming_config =
  HLS_BASE_URL :: string
  HLS_SECRET_KEY :: string

text \<open>Python's \<open>str\<close> of an integer, as the f-strings print it.\<close>

definition digit_char :: "nat \<Rightarrow> char" where
  "digit_char d = ''0123456789'' ! d"

fun str_nat :: "nat \<Rightarrow> string" where
  "str_nat n = (if n < 10 then [digit_char n] else str_nat (n div 10) @ [digit_char (n mod 10)])"

declare str_nat.simps [simp del]

definition str_int :: "int \<Rightarrow> string" where
  "str_int i = (if i < 0 then CHR ''-'' # str_nat (nat (- i)) else str_nat (nat i))"

definition hls_path_of :: "string \<Rightarrow> string \<Rightarrow> string" where
  "hls_path_of key quality =
     (if quality = ''auto'' then key @ ''/master.m3u8''
      else key @ ''/'' @ quality @ ''/playlist.m3u8'')"

text \<open>
  \<open>int(timezone.now().timestamp() + expires_in)\<close> is computed in double precision: the
  timestamp is the quotient of the microseconds by \<open>10^6\<close>, rounded, and the sum is rounded
  again.  For a time and a validity that are not negative and an expiry below \<open>2^32\<close> seconds
  both roundings stay under half a microsecond, so that the truncation is that of the exact
  sum.  Outside that range the result depends on the rounding, which is not modelled:
  there it is the value of the parameter \<open>float_expires\<close>.
\<close>

definition expires_of :: "(datetime \<Rightarrow> int \<Rightarrow> int) \<Rightarrow> datetime \<Rightarrow> int \<Rightarrow> int" where
  "expires_of float_expires now expires_in =
     (if 0 \<le> now \<and> 0 \<le> expires_in \<and> now + expires_in * 1000000 < 4294967296 * 1000000
      then int_seconds (now + expires_in * 1000000)
      else float_expires now expires_in)"

definition generate_signed_url ::
  "(string \<Rightarrow> string) \<Rightarrow> (datetime \<Rightarrow> int \<Rightarrow> int) \<Rightarrow> streaming_config \<Rightarrow> datetime \<Rightarrow> stream \<Rightarrow>
   string \<Rightarrow> int \<Rightarrow> string" where
  \<comment> \<open>\<open>md5_hex\<close> is \<open>hashlib.md5(m.encode()).hexdigest()\<close>, \<open>now\<close> the reading of \<open>timezone.now()\<close>;
      the \<open>user\<close> argument of the source is never read\<close>
  "generate_signed_url md5_hex float_expires cfg now s quality expires_in =
     (let expires = expires_of float_expires now expires_in;
          hls_path = hls_path_of (stream_key s) quality;
          base_url = HLS_BASE_URL cfg;
          secret = HLS_SECRET_KEY cfg;
          message = str_int expires @ hls_path @ secret;
          signature = md5_hex message
      in base_url @ ''/'' @ hls_path @ ''?md5='' @ signature @ ''&expires='' @ str_int expires)"

definition update_viewer_count :: "int \<Rightarrow> stream \<Rightarrow> stream" where
  \<comment> \<open>the in-memory part of \<open>Stream.update_viewer_count\<close>; the save of the two fields is
      \<open>save_viewer_counts\<close> below\<close>
  "update_viewer_count delta s =
     (let s1 = s\<lparr>current_viewers := max 0 (current_viewers s + delta)\<rparr>
      in if current_viewers s1 > peak_viewers s1
         then s1\<lparr>peak_viewers := current_viewers s1\<rparr> else s1)"

definition viewer_counts_after :: "stream \<Rightarrow> int list \<Rightarrow> stream" where
  \<comment> \<open>the stream object after a sequence of \<open>update_viewer_count\<close> calls, first delta first\<close>
  "viewer_counts_after s deltas = fold update_viewer_count deltas s"

section \<open>apps/streams/models.py: ViewSession\<close>

record view_session =
  session_pk :: nat
  user_id :: nat
  stream_id :: nat
  session_id :: string
  device_type :: string
  quality :: string
  ip_address :: string
  user_agent :: string
  isp_detected :: string
  vs_started_at :: datetime
  last_heartbeat :: datetime
  vs_ended_at :: "datetime option"
  watch_duration :: int
  data_consumed :: int
  buffer_count :: int
  quality_switches :: int
  average_bitrate :: int

section \<open>The database\<close>

text \<open>
  What the columns of the configured database take (\<open>settings.DATABASES\<close> is not part of
  the sources): the least and the greatest value of an \<open>IntegerField\<close> and of a
  \<open>BigIntegerField\<close> column, whether a \<open>CharField\<close> column of a given \<open>max_length\<close> takes a
  text, and whether the column of a \<open>GenericIPAddressField\<close> takes a text as an address.
\<close>

record backend =
  integer_range :: "int \<times> int"
  big_integer_range :: "int \<times> int"
  char_accepts :: "nat \<Rightarrow> string \<Rightarrow> bool"
  ip_accepts :: "string \<Rightarrow> bool"

definition integer_ok :: "backend \<Rightarrow> int \<Rightarrow> bool" where
  "integer_ok b x \<longleftrightarrow> fst (integer_range b) \<le> x \<and> x \<le> snd (integer_range b)"

definition big_integer_ok :: "backend \<Rightarrow> int \<Rightarrow> bool" where
  "big_integer_ok b x \<longleftrightarrow> fst (big_integer_range b) \<le> x \<and> x \<le> snd (big_integer_range b)"

text \<open>
  The three tables, as lists of rows, and the backend.  A model instance is a row value
  held by the view; a save writes it back to the row with the same primary key.

  A save is refused with \<open>DatabaseError\<close> when an integer that it writes is outside its
  column.  An integer that was read from a column is inside it, so only the integers
  assigned since the row was read can be refused: each caller of a save checks those
  before the save, and the save of a refused row changes nothing.
\<close>

record db =
  streams :: "stream list"
  sessions :: "view_session list"
  users :: "user list"
  db_backend :: backend

text \<open>
  Successive readings of \<open>timezone.now()\<close> during one request: \<open>clk n\<close> is the \<open>n\<close>-th one.
\<close>

type_synonym clock = "nat \<Rightarrow> datetime"

definition objects_get :: "exn \<Rightarrow> ('r \<Rightarrow> bool) \<Rightarrow> 'r list \<Rightarrow> exn + 'r" where
  \<comment> \<open>\<open>Model.objects.get(...)\<close>; \<open>dne\<close> is the model's \<open>DoesNotExist\<close>\<close>
  "objects_get dne P rows =
     (case filter P rows of
        [] \<Rightarrow> Inl dne
      | [r] \<Rightarrow> Inr r
      | _ \<Rightarrow> Inl MultipleObjectsReturned)"

definition save_stream :: "datetime \<Rightarrow> stream \<Rightarrow> db \<Rightarrow> db" where
  \<comment> \<open>\<open>stream.save()\<close>: every field is written, \<open>updated_at\<close> (\<open>auto_now\<close>) is set to the
      reading of the clock at the save; its two callers assign no integer but 0\<close>
  "save_stream now s d =
     d\<lparr>streams :=
        map (\<lambda>r. if stream_pk r = stream_pk s then s\<lparr>updated_at := now\<rparr> else r) (streams d)\<rparr>"

definition save_viewer_counts :: "stream \<Rightarrow> db \<Rightarrow> db" where
  \<comment> \<open>\<open>self.save(update_fields=['current_viewers', 'peak_viewers'])\<close>\<close>
  "save_viewer_counts s d =
     d\<lparr>streams :=
        map (\<lambda>r. if stream_pk r = stream_pk s
                 then r\<lparr>current_viewers := current_viewers s, peak_viewers := peak_viewers s\<rparr>
                 else r) (streams d)\<rparr>"

definition save_session :: "datetime \<Rightarrow> view_session \<Rightarrow> db \<Rightarrow> db" where
  \<comment> \<open>\<open>session.save()\<close>: every field is written, \<open>last_heartbeat\<close> (\<open>auto_now\<close>) is set to the
      reading of the clock at the save\<close>
  "save_session now v d =
     d\<lparr>sessions :=
        map (\<lambda>r. if session_pk r = session_pk v then v\<lparr>last_heartbeat := now\<rparr> else r)
          (sessions d)\<rparr>"

definition save_user_usage :: "user \<Rightarrow> db \<Rightarrow> db" where
  \<comment> \<open>\<open>self.user.save(update_fields=['total_watch_time', 'monthly_data_used'])\<close>\<close>
  "save_user_usage u d =
     d\<lparr>users :=
        map (\<lambda>r. if user_pk r = user_pk u
                 then r\<lparr>total_watch_time := total_watch_time u,
                        monthly_data_used := monthly_data_used u\<rparr>
                 else r) (users d)\<rparr>"

definition end_instance ::
  "(int \<Rightarrow> int) \<Rightarrow> datetime \<Rightarrow> datetime \<Rightarrow> view_session \<Rightarrow> view_session" where
  \<comment> \<open>the session object after lines 158 to 161 of \<open>end_session\<close>\<close>
  "end_instance fd now now_save v =
     v\<lparr>vs_ended_at := Some now,
       watch_duration := duration_seconds fd (now - vs_started_at v),
       last_heartbeat := now_save\<rparr>"

definition end_session ::
  "(int \<Rightarrow> int) \<Rightarrow> datetime \<Rightarrow> datetime \<Rightarrow> view_session \<Rightarrow> db \<Rightarrow> (exn + view_session) \<times> db" where
  \<comment> \<open>\<open>fd\<close> is the rounding parameter of \<open>duration_seconds\<close>; \<open>now\<close> and \<open>now_save\<close> are the
      two readings of the clock that the active branch takes;
      \<open>self.stream\<close> and \<open>self.user\<close> are loaded from the database at their first use; the
      three saves write \<open>watch_duration\<close>, the viewer count and the two totals\<close>
  "end_session fd now now_save v d =
     (if vs_ended_at v = None then
        let v' = end_instance fd now now_save v
        in if \<not> integer_ok (db_backend d) (watch_duration v') then (Inl DatabaseError, d)
           else
             let d1 = save_session now_save v' d
             in (case objects_get StreamDoesNotExist (\<lambda>r. stream_pk r = stream_id v')
                        (streams d1) of
                   Inl e \<Rightarrow> (Inl e, d1)
                 | Inr s \<Rightarrow>
                     let s' = update_viewer_count (- 1) s
                     in if \<not> integer_ok (db_backend d1) (current_viewers s')
                        then (Inl DatabaseError, d1)
                        else
                          let d2 = save_viewer_counts s' d1
                          in (case objects_get UserDoesNotExist (\<lambda>r. user_pk r = user_id v')
                                     (users d2) of
                                Inl e \<Rightarrow> (Inl e, d2)
                              | Inr u \<Rightarrow>
                                  let u' = u\<lparr>total_watch_time :=
                                               total_watch_time u + watch_duration v',
                                             monthly_data_used :=
                                               monthly_data_used u + data_consumed v'\<rparr>
                                  in if integer_ok (db_backend d2) (total_watch_time u') \<and>
                                        big_integer_ok (db_backend d2) (monthly_data_used u')
                                     then (Inr v', save_user_usage u' d2)
                                     else (Inl DatabaseError, d2)))
      else (Inr v, d))"

section \<open>apps/api/views.py\<close>

datatype response =
    Status_ok
  | Status_ended int int
  | Playback string string string "string list" int

subsection \<open>StreamViewSet\<close>

text \<open>
  What a request runs in: the clock, the identifier that \<open>uuid.uuid4()\<close> draws, the digest,
  the rounding of the expiry outside the exact range, the settings, and
  \<open>clean_ipv6_address\<close>, by which \<open>GenericIPAddressField\<close> prepares a text with a colon for the
  database: the normal form of a valid IPv6 address, the text itself otherwise.
\<close>

record environment =
  clk :: clock
  uuid4 :: string
  md5_hex :: "string \<Rightarrow> string"
  float_expires :: "datetime \<Rightarrow> int \<Rightarrow> int"
  config :: streaming_config
  clean_ipv6_address :: "string \<Rightarrow> string"

record playback_request =
  request_user :: user
  pk :: nat
  query_status :: "string option"
  data_quality :: "string option"
  data_device_type :: "string option"
  HTTP_X_FORWARDED_FOR :: "string option"
  REMOTE_ADDR :: "string option"
  HTTP_USER_AGENT :: "string option"

definition truthy :: "string option \<Rightarrow> bool" where
  "truthy x = (case x of None \<Rightarrow> False | Some s \<Rightarrow> s \<noteq> [])"

definition stream_queryset :: "playback_request \<Rightarrow> db \<Rightarrow> stream list" where
  "stream_queryset rq d =
     (if truthy (query_status rq)
      then filter (\<lambda>s. Some (status s) = query_status rq) (streams d)
      else streams d)"

definition stream_get_object :: "playback_request \<Rightarrow> db \<Rightarrow> error + stream" where
  \<comment> \<open>\<open>self.get_object()\<close>: \<open>get_object_or_404\<close> on the filtered queryset\<close>
  "stream_get_object rq d =
     (case objects_get StreamDoesNotExist (\<lambda>s. stream_pk s = pk rq) (stream_queryset rq d) of
        Inl StreamDoesNotExist \<Rightarrow> Inl NotFound
      | Inl e \<Rightarrow> Inl (ServerError e)
      | Inr s \<Rightarrow> Inr s)"

definition get_client_ip :: "playback_request \<Rightarrow> string option" where
  "get_client_ip rq =
     (if truthy (HTTP_X_FORWARDED_FOR rq)
      then map_option (takeWhile (\<lambda>c. c \<noteq> CHR '','')) (HTTP_X_FORWARDED_FOR rq)
      else REMOTE_ADDR rq)"

definition next_pk :: "nat list \<Rightarrow> nat" where
  \<comment> \<open>the value an \<open>AutoField\<close> gives to a new row\<close>
  "next_pk ks = Suc (fold max ks 0)"

definition prepared_ip :: "(string \<Rightarrow> string) \<Rightarrow> string option \<Rightarrow> string option" where
  \<comment> \<open>the column value of \<open>ip_address\<close>: \<open>get_prep_value\<close> cleans a text with a colon, and an
      empty text is written as NULL\<close>
  "prepared_ip clean ip =
     (case ip of
        None \<Rightarrow> None
      | Some a \<Rightarrow>
          let p = (if a \<noteq> [] \<and> CHR '':'' \<in> set a then clean a else a)
          in if p = [] then None else Some p)"

definition create_session ::
  "(string \<Rightarrow> string) \<Rightarrow> datetime \<Rightarrow> datetime \<Rightarrow> user \<Rightarrow> stream \<Rightarrow> string \<Rightarrow> string \<Rightarrow> string \<Rightarrow>
   string option \<Rightarrow> string \<Rightarrow> db \<Rightarrow> exn + db" where
  \<comment> \<open>\<open>ViewSession.objects.create(...)\<close>, which does not validate: the insert is refused
      when \<open>ip_address\<close> is NULL or not taken by its column, when \<open>session_id\<close>,
      \<open>device_type\<close> or \<open>quality\<close> is not taken by its column, when \<open>session_id\<close> is already
      stored (\<open>unique\<close>) or when the user has no row (foreign key); \<open>started_at\<close>
      (\<open>auto_now_add\<close>) and \<open>last_heartbeat\<close> (\<open>auto_now\<close>) each read the clock\<close>
  "create_session clean now_add now_save u s sid dev q ip agent d =
     (case prepared_ip clean ip of
        None \<Rightarrow> Inl DatabaseError
      | Some addr \<Rightarrow>
          if \<not> ip_accepts (db_backend d) addr then Inl DatabaseError
          else if \<not> char_accepts (db_backend d) 100 sid then Inl DatabaseError
          else if \<not> char_accepts (db_backend d) 20 dev then Inl DatabaseError
          else if \<not> char_accepts (db_backend d) 10 q then Inl DatabaseError
          else if sid \<in> set (map session_id (sessions d)) then Inl DatabaseError
          else if user_pk u \<notin> set (map user_pk (users d)) then Inl DatabaseError
          else Inr (d\<lparr>sessions := sessions d @
                 [\<lparr>session_pk = next_pk (map session_pk (sessions d)),
                   user_id = user_pk u, stream_id = stream_pk s, session_id = sid,
                   device_type = dev, quality = q, ip_address = addr, user_agent = agent,
                   isp_detected = [], vs_started_at = now_add, last_heartbeat = now_save,
                   vs_ended_at = None, watch_duration = 0, data_consumed = 0,
                   buffer_count = 0, quality_switches = 0, average_bitrate = 0\<rparr>]\<rparr>))"

definition issue_playback ::
  "environment \<Rightarrow> playback_request \<Rightarrow> stream \<Rightarrow> string \<Rightarrow> db \<Rightarrow> (error + response) \<times> db" where
  \<comment> \<open>lines 123 to 151 of \<open>get_playback_url\<close>, after both checks have passed\<close>
  "issue_playback env rq s q d =
     (let u = request_user rq;
          signed_url =
            generate_signed_url (md5_hex env) (float_expires env) (config env) (clk env 0) s q 3600;
          sid = uuid4 env
      in (case create_session (clean_ipv6_address env) (clk env 1) (clk env 2) u s sid
                 (case data_device_type rq of Some dev \<Rightarrow> dev | None \<Rightarrow> ''unknown'')
                 q (get_client_ip rq)
                 (case HTTP_USER_AGENT rq of Some a \<Rightarrow> a | None \<Rightarrow> []) d of
            Inl e \<Rightarrow> (Inl (ServerError e), d)
          | Inr d1 \<Rightarrow>
              let s' = update_viewer_count 1 s
              in if \<not> integer_ok (db_backend d1) (current_viewers s')
                 then (Inl (ServerError DatabaseError), d1)
                 else (Inr (Playback signed_url sid q (available_qualities s) 3600),
                       save_viewer_counts s' d1)))"

definition get_playback_url ::
  "environment \<Rightarrow> playback_request \<Rightarrow> db \<Rightarrow> (error + response) \<times> db" where
  "get_playback_url env rq d =
     (case stream_get_object rq d of
        Inl e \<Rightarrow> (Inl e, d)
      | Inr s \<Rightarrow>
          if status s \<noteq> ONLINE then (Inl StreamOffline, d)
          else
            let u = request_user rq;
                q = (case data_quality rq of Some q \<Rightarrow> q | None \<Rightarrow> ''auto'')
            in if q \<noteq> ''auto'' then
                 (case can_watch_quality u q of
                    Inl e \<Rightarrow> (Inl (ServerError e), d)
                  | Inr False \<Rightarrow> (Inl (QualityForbidden q (max_quality u)), d)
                  | Inr True \<Rightarrow> issue_playback env rq s q d)
               else issue_playback env rq s q d)"

subsection \<open>ViewSessionViewSet\<close>

record session_request =
  session_request_user :: user
  session_request_pk :: nat

record heartbeat_data =
  data_buffer_count :: "int option"
  data_quality_switches :: "int option"
  data_data_consumed :: "int option"
  data_average_bitrate :: "int option"

definition session_queryset :: "session_request \<Rightarrow> db \<Rightarrow> view_session list" where
  "session_queryset rq d =
     (if is_staff (session_request_user rq) then sessions d
      else filter (\<lambda>v. user_id v = user_pk (session_request_user rq)) (sessions d))"

definition session_get_object :: "session_request \<Rightarrow> db \<Rightarrow> error + view_session" where
  "session_get_object rq d =
     (case objects_get SessionDoesNotExist (\<lambda>v. session_pk v = session_request_pk rq)
             (session_queryset rq d) of
        Inl SessionDoesNotExist \<Rightarrow> Inl NotFound
      | Inl e \<Rightarrow> Inl (ServerError e)
      | Inr v \<Rightarrow> Inr v)"

definition merge_heartbeat :: "datetime \<Rightarrow> heartbeat_data \<Rightarrow> view_session \<Rightarrow> view_session" where
  \<comment> \<open>the session object after lines 192 to 202 of \<open>heartbeat\<close>\<close>
  "merge_heartbeat now hb v =
     (let v1 = v\<lparr>last_heartbeat := now\<rparr>;
          v2 = (case data_buffer_count hb of Some n \<Rightarrow> v1\<lparr>buffer_count := n\<rparr> | None \<Rightarrow> v1);
          v3 = (case data_quality_switches hb of Some n \<Rightarrow> v2\<lparr>quality_switches := n\<rparr> | None \<Rightarrow> v2);
          v4 = (case data_data_consumed hb of Some n \<Rightarrow> v3\<lparr>data_consumed := n\<rparr> | None \<Rightarrow> v3)
      in (case data_average_bitrate hb of Some n \<Rightarrow> v4\<lparr>average_bitrate := n\<rparr> | None \<Rightarrow> v4))"

definition heartbeat_fits :: "backend \<Rightarrow> heartbeat_data \<Rightarrow> bool" where
  \<comment> \<open>every number that the request provides is inside the column it is assigned to\<close>
  "heartbeat_fits b hb \<longleftrightarrow>
     (case data_buffer_count hb of Some n \<Rightarrow> integer_ok b n | None \<Rightarrow> True) \<and>
     (case data_quality_switches hb of Some n \<Rightarrow> integer_ok b n | None \<Rightarrow> True) \<and>
     (case data_data_consumed hb of Some n \<Rightarrow> big_integer_ok b n | None \<Rightarrow> True) \<and>
     (case data_average_bitrate hb of Some n \<Rightarrow> integer_ok b n | None \<Rightarrow> True)"

definition heartbeat ::
  "clock \<Rightarrow> session_request \<Rightarrow> heartbeat_data \<Rightarrow> db \<Rightarrow> (error + response) \<times> db" where
  \<comment> \<open>the numbers of \<open>request.data\<close> are assigned as they come (no serializer validates
      them), so the save is where one that does not fit is refused\<close>
  "heartbeat c rq hb d =
     (case session_get_object rq d of
        Inl e \<Rightarrow> (Inl e, d)
      | Inr v \<Rightarrow>
          if heartbeat_fits (db_backend d) hb
          then (Inr Status_ok, save_session (c 1) (merge_heartbeat (c 0) hb v) d)
          else (Inl (ServerError DatabaseError), d))"

definition end_view ::
  "(int \<Rightarrow> int) \<Rightarrow> clock \<Rightarrow> session_request \<Rightarrow> db \<Rightarrow> (error + response) \<times> db" where
  \<comment> \<open>the action \<open>end\<close> of the viewset\<close>
  "end_view fd c rq d =
     (case session_get_object rq d of
        Inl e \<Rightarrow> (Inl e, d)
      | Inr v \<Rightarrow>
          (case end_session fd (c 0) (c 1) v d of
             (Inl e, d') \<Rightarrow> (Inl (ServerError e), d')
           | (Inr v', d') \<Rightarrow> (Inr (Status_ended (watch_duration v') (data_consumed v')), d')))"

subsection \<open>WebhookViewSet\<close>

definition stream_by_key :: "string option \<Rightarrow> db \<Rightarrow> exn + stream" where
  \<comment> \<open>\<open>Stream.objects.get(stream_key=request.data.get('name'))\<close>; no row has a null key\<close>
  "stream_by_key key d =
     (case key of
        None \<Rightarrow> Inl StreamDoesNotExist
      | Some k \<Rightarrow> objects_get StreamDoesNotExist (\<lambda>s. stream_key s = k) (streams d))"

definition stream_start :: "clock \<Rightarrow> string option \<Rightarrow> db \<Rightarrow> (error + response) \<times> db" where
  "stream_start c key d =
     (case stream_by_key key d of
        Inl StreamDoesNotExist \<Rightarrow> (Inl NotFound, d)
      | Inl e \<Rightarrow> (Inl (ServerError e), d)
      | Inr s \<Rightarrow>
          (Inr Status_ok,
           save_stream (c 1) (s\<lparr>status := ONLINE, started_at := Some (c 0), current_viewers := 0\<rparr>) d))"

definition active_sessions :: "stream \<Rightarrow> db \<Rightarrow> view_session list" where
  \<comment> \<open>\<open>ViewSession.objects.filter(stream=stream, ended_at__isnull=True)\<close>\<close>
  "active_sessions s d =
     filter (\<lambda>v. stream_id v = stream_pk s \<and> vs_ended_at v = None) (sessions d)"

fun end_all ::
  "(int \<Rightarrow> int) \<Rightarrow> clock \<Rightarrow> nat \<Rightarrow> view_session list \<Rightarrow> db \<Rightarrow> (exn + unit) \<times> db" where
  \<comment> \<open>the loop of \<open>stream_stop\<close>; every session of the query is active, so each round takes
      two readings of the clock, starting with the \<open>k\<close>-th\<close>
  "end_all fd c k [] d = (Inr (), d)"
| "end_all fd c k (v # vs) d =
     (case end_session fd (c k) (c (k + 1)) v d of
        (Inl e, d') \<Rightarrow> (Inl e, d')
      | (Inr v', d') \<Rightarrow> end_all fd c (k + 2) vs d')"

definition stream_stop ::
  "(int \<Rightarrow> int) \<Rightarrow> clock \<Rightarrow> string option \<Rightarrow> db \<Rightarrow> (error + response) \<times> db" where
  "stream_stop fd c key d =
     (case stream_by_key key d of
        Inl StreamDoesNotExist \<Rightarrow> (Inl NotFound, d)
      | Inl e \<Rightarrow> (Inl (ServerError e), d)
      | Inr s \<Rightarrow>
          let s' = s\<lparr>status := OFFLINE, ended_at := Some (c 0), current_viewers := 0\<rparr>;
              d1 = save_stream (c 1) s' d
          in (case end_all fd c 2 (active_sessions s' d1) d1 of
                (Inl StreamDoesNotExist, d') \<Rightarrow> (Inl NotFound, d')
              | (Inl e, d') \<Rightarrow> (Inl (ServerError e), d')
              | (Inr _, d') \<Rightarrow> (Inr Status_ok, d')))"

section \<open>Database constraints and concrete scenarios\<close>

text \<open>
  What the schema enforces: primary keys and the \<open>unique=True\<close> columns have no duplicates,
  and the two foreign keys of a session point at existing rows.
\<close>

definition wf_db :: "db \<Rightarrow> bool" where
  "wf_db d \<longleftrightarrow>
     distinct (map stream_pk (streams d)) \<and>
     distinct (map stream_key (streams d)) \<and>
     distinct (map session_pk (sessions d)) \<and>
     distinct (map session_id (sessions d)) \<and>
     distinct (map user_pk (users d)) \<and>
     list_all (\<lambda>v. stream_id v \<in> set (map stream_pk (streams d)) \<and>
                   user_id v \<in> set (map user_pk (users d))) (sessions d)"

fun ended_instances ::
  "(int \<Rightarrow> int) \<Rightarrow> clock \<Rightarrow> nat \<Rightarrow> view_session list \<Rightarrow> view_session list" where
  \<comment> \<open>the session objects that the rounds of \<open>end_all\<close> save, in order\<close>
  "ended_instances fd c k [] = []"
| "ended_instances fd c k (v # vs) = end_instance fd (c k) (c (k + 1)) v # ended_instances fd c (k + 2) vs"

text \<open>
  What one round of \<open>end_all\<close> does to a row of each table, \<open>v'\<close> being the session
  object that the round saves.
\<close>

definition session_row_step :: "view_session \<Rightarrow> view_session \<Rightarrow> view_session" where
  "session_row_step v' r = (if session_pk r = session_pk v' then v' else r)"

definition stream_row_step :: "view_session \<Rightarrow> stream \<Rightarrow> stream" where
  "stream_row_step v' r =
     (if stream_pk r = stream_id v'
      then r\<lparr>current_viewers := max 0 (current_viewers r - 1),
             peak_viewers := max (peak_viewers r) (max 0 (current_viewers r - 1))\<rparr>
      else r)"

definition user_row_step :: "view_session \<Rightarrow> user \<Rightarrow> user" where
  "user_row_step v' r =
     (if user_pk r = user_id v'
      then r\<lparr>total_watch_time := total_watch_time r + watch_duration v',
             monthly_data_used := monthly_data_used r + data_consumed v'\<rparr>
      else r)"

text \<open>
  Whether the saves of the rounds of \<open>end_all\<close> that store the session objects \<open>vs\<close> are
  inside their columns, \<open>us\<close> being the users before the first round: the
  \<open>watch_duration\<close> of each session, and the two totals of its user after the addition.
\<close>

fun usage_fits :: "backend \<Rightarrow> user list \<Rightarrow> view_session list \<Rightarrow> bool" where
  "usage_fits b us [] = True"
| "usage_fits b us (v' # vs) =
     (integer_ok b (watch_duration v') \<and>
      list_all (\<lambda>u. user_pk u = user_id v' \<longrightarrow>
                  integer_ok b (total_watch_time u + watch_duration v') \<and>
                  big_integer_ok b (monthly_data_used u + data_consumed v')) us \<and>
      usage_fits b (map (user_row_step v') us) vs)"

definition demo_backend :: backend where
  \<comment> \<open>32-bit and 64-bit integer columns, texts no longer than \<open>max_length\<close>\<close>
  "demo_backend =
     \<lparr>integer_range = (- 2147483648, 2147483647),
      big_integer_range = (- 9223372036854775808, 9223372036854775807),
      char_accepts = (\<lambda>n t. length t \<le> n),
      ip_accepts = (\<lambda>t. True)\<rparr>"

definition demo_user :: "nat \<Rightarrow> string \<Rightarrow> user" where
  "demo_user k tier =
     \<lparr>user_pk = k, is_staff = False, email = ''viewer@example.com'', phone_number = [],
      subscription_tier = tier, subscription_expires = None, isp_customer_id = [],
      isp_account_number = [], zero_rated = False, monthly_data_used = 0,
      total_watch_time = 0, preferred_quality = ''auto'', auto_play = True,
      user_created_at = 0, user_updated_at = 0, last_login_ip = None\<rparr>"

definition demo_stream :: "string \<Rightarrow> stream" where
  "demo_stream st =
     \<lparr>stream_pk = 1, stream_key = ''abc'', name = ''Demo'', description = [], status = st,
      rtmp_url = ''rtmp://ingest/live'', hls_master_url = [],
      available_qualities = [''360p'', ''480p'', ''720p'', ''1080p''],
      default_quality = ''auto'', current_viewers = 0, total_views = 0, peak_viewers = 0,
      recording_enabled = False, recording_path = [], thumbnail_url = [],
      started_at = None, ended_at = None, created_at = 0, updated_at = 0\<rparr>"

definition demo_session :: "nat \<Rightarrow> nat \<Rightarrow> datetime option \<Rightarrow> view_session" where
  "demo_session k uid ended =
     \<lparr>session_pk = k, user_id = uid, stream_id = 1, session_id = str_nat k,
      device_type = ''web'', quality = ''auto'', ip_address = ''10.0.0.1'', user_agent = [],
      isp_detected = [], vs_started_at = 1000000, last_heartbeat = 2000000,
      vs_ended_at = ended, watch_duration = 0, data_consumed = 7, buffer_count = 0,
      quality_switches = 0, average_bitrate = 0\<rparr>"

definition demo_db :: "string \<Rightarrow> db" where
  \<comment> \<open>one stream with status \<open>st\<close>, two active sessions and an ended one, two users\<close>
  "demo_db st =
     \<lparr>streams = [(demo_stream st)\<lparr>current_viewers := 2, peak_viewers := 3\<rparr>],
      sessions = [demo_session 1 1 None, demo_session 2 2 None, demo_session 3 1 (Some 5000000)],
      users = [demo_user 1 BASIC, demo_user 2 ULTRA],
      db_backend = demo_backend\<rparr>"

definition demo_float :: "int \<Rightarrow> int" where
  "demo_float micros = 0"

definition demo_clock :: clock where
  "demo_clock n = 10000000 + 1500000 * int n"

definition demo_config :: streaming_config where
  "demo_config = \<lparr>HLS_BASE_URL = ''https://cdn.example.com/hls'', HLS_SECRET_KEY = ''k3y''\<rparr>"

definition demo_env :: environment where
  "demo_env =
     \<lparr>clk = demo_clock, uuid4 = ''0b1e'', md5_hex = rev, float_expires = (\<lambda>now e. 0),
      config = demo_config, clean_ipv6_address = (\<lambda>t. t)\<rparr>"

definition demo_request :: "string \<Rightarrow> string option \<Rightarrow> playback_request" where
  "demo_request tier q =
     \<lparr>request_user = demo_user 1 tier, pk = 1, query_status = None, data_quality = q,
      data_device_type = Some ''tv'', HTTP_X_FORWARDED_FOR = None,
      REMOTE_ADDR = Some ''10.0.0.9'', HTTP_USER_AGENT = None\<rparr>"

definition demo_session_request :: "nat \<Rightarrow> session_request" where
  "demo_session_request k = \<lparr>session_request_user = demo_user 1 BASIC, session_request_pk = k\<rparr>"

definition demo_heartbeat :: heartbeat_data where
  "demo_heartbeat =
     \<lparr>data_buffer_count = None, data_quality_switches = Some 4,
      data_data_consumed = Some 99, data_average_bitrate = None\<rparr>"


section \<open>Access policy\<close>

lemma max_quality_cases:
  "max_quality u =
     (if subscription_tier u = ''BASIC'' then ''480p''
      else if subscription_tier u = ''PREMIUM'' then ''720p''
      else if subscription_tier u = ''ULTRA'' then ''1080p'' else ''360p'')"
  by (simp add: max_quality_def quality_map_def FREE_def BASIC_def PREMIUM_def ULTRA_def)

lemma index_of_hierarchy: "index_of quality_hierarchy q = spec_rank q"
  by (simp add: quality_hierarchy_def spec_rank_def)

lemma spec_rank_max_quality:
  "spec_rank (max_quality u) =
     Some (if subscription_tier u = ''BASIC'' then 1 else if subscription_tier u = ''PREMIUM'' then 2
           else if subscription_tier u = ''ULTRA'' then 3 else 0)"
  by (simp add: max_quality_cases spec_rank_def)

lemma can_watch_quality_rank:
  "can_watch_quality u q =
     Inr (case spec_rank q of
            None \<Rightarrow> False
          | Some r \<Rightarrow> (case spec_rank (max_quality u) of None \<Rightarrow> False | Some m \<Rightarrow> r \<le> m))"
  by (simp add: can_watch_quality_def index_of_hierarchy spec_rank_max_quality
      split: option.splits)

lemma spec_rank_None: "q \<notin> set quality_hierarchy \<Longrightarrow> spec_rank q = None"
  by (simp add: quality_hierarchy_def spec_rank_def)

text \<open>
  C8.  \<open>max_quality\<close> is the fixed table FREE to 360p, BASIC to 480p, PREMIUM to 720p, ULTRA to
  1080p; \<open>can_watch_quality\<close> answers true exactly when the requested label has a rank in
  360p, 480p, 720p, 1080p that is at most the rank of the user's maximum quality; a label
  outside that list is answered with false; FREE may not watch 720p and ULTRA may watch 1080p.
\<close>

theorem can_watch_quality_table:
  "max_quality (u\<lparr>subscription_tier := FREE\<rparr>) = ''360p'' \<and>
   max_quality (u\<lparr>subscription_tier := BASIC\<rparr>) = ''480p'' \<and>
   max_quality (u\<lparr>subscription_tier := PREMIUM\<rparr>) = ''720p'' \<and>
   max_quality (u\<lparr>subscription_tier := ULTRA\<rparr>) = ''1080p'' \<and>
   can_watch_quality u q =
     Inr (case spec_rank q of
            None \<Rightarrow> False
          | Some r \<Rightarrow> (case spec_rank (max_quality u) of None \<Rightarrow> False | Some m \<Rightarrow> r \<le> m)) \<and>
   (q \<notin> set quality_hierarchy \<longrightarrow> can_watch_quality u q = Inr False) \<and>
   can_watch_quality (u\<lparr>subscription_tier := FREE\<rparr>) ''720p'' = Inr False \<and>
   can_watch_quality (u\<lparr>subscription_tier := ULTRA\<rparr>) ''1080p'' = Inr True"
proof -
  have table: "max_quality (u\<lparr>subscription_tier := FREE\<rparr>) = ''360p''"
    "max_quality (u\<lparr>subscription_tier := BASIC\<rparr>) = ''480p''"
    "max_quality (u\<lparr>subscription_tier := PREMIUM\<rparr>) = ''720p''"
    "max_quality (u\<lparr>subscription_tier := ULTRA\<rparr>) = ''1080p''"
    by (simp_all add: max_quality_cases FREE_def BASIC_def PREMIUM_def ULTRA_def)
  have closed: "q \<notin> set quality_hierarchy \<longrightarrow> can_watch_quality u q = Inr False"
    by (simp add: can_watch_quality_rank spec_rank_None)
  have free: "can_watch_quality (u\<lparr>subscription_tier := FREE\<rparr>) ''720p'' = Inr False"
    by (simp add: can_watch_quality_rank table spec_rank_def)
  have ultra: "can_watch_quality (u\<lparr>subscription_tier := ULTRA\<rparr>) ''1080p'' = Inr True"
    by (simp add: can_watch_quality_rank table spec_rank_def)
  from table closed free ultra show ?thesis
    by (simp only: can_watch_quality_rank simp_thms)
qed

theorem can_watch_quality_table_witness:
  "''4k'' \<notin> set quality_hierarchy \<and>
   can_watch_quality (demo_user 1 BASIC) ''4k'' = Inr False \<and>
   can_watch_quality (demo_user 1 BASIC) ''480p'' = Inr True \<and>
   can_watch_quality (demo_user 1 BASIC) ''720p'' = Inr False"
  using can_watch_quality_table [of "demo_user 1 BASIC" "''4k''"]
    can_watch_quality_table [of "demo_user 1 BASIC" "''480p''"]
    can_watch_quality_table [of "demo_user 1 BASIC" "''720p''"]
  by (simp add: quality_hierarchy_def spec_rank_def max_quality_cases demo_user_def BASIC_def)

section \<open>Signed playback URLs\<close>

lemma int_seconds_whole: "int_seconds (k * 1000000) = k"
proof (cases "0 \<le> k")
  case True
  then show ?thesis by (simp add: int_seconds_def)
next
  case False
  have "- (k * 1000000) div 1000000 = - k"
  proof -
    have "- (k * 1000000) = (- k) * 1000000" by simp
    then show ?thesis by (simp only: nonzero_mult_div_cancel_right)
  qed
  with False show ?thesis by (simp add: int_seconds_def)
qed

lemma expires_of_exact:
  assumes "0 \<le> now" "0 \<le> e" "now + e * 1000000 < 4294967296 * 1000000"
  shows "expires_of fl now e = (now + e * 1000000) div 1000000"
proof -
  from assms have "0 \<le> now + e * 1000000" by simp
  with assms show ?thesis by (simp add: expires_of_def int_seconds_def)
qed

lemma expires_of_whole:
  assumes "0 \<le> t" "0 \<le> e" "t + e < 4294967296"
  shows "expires_of fl (t * 1000000) e = t + e"
proof -
  have sum: "t * 1000000 + e * 1000000 = (t + e) * 1000000" by (simp add: algebra_simps)
  from assms have "0 \<le> t * 1000000" "t * 1000000 + e * 1000000 < 4294967296 * 1000000"
    by simp_all
  with assms(2) have "expires_of fl (t * 1000000) e = (t * 1000000 + e * 1000000) div 1000000"
    by (simp add: expires_of_exact)
  then show ?thesis unfolding sum by simp
qed

text \<open>
  C9.  The signed URL is the base URL, the resource path, and the query parameters \<open>md5\<close>
  (the digest of expiry, path and secret concatenated) and \<open>expires\<close>; the path is
  \<open>key/master.m3u8\<close> for quality auto and \<open>key/quality/playlist.m3u8\<close> otherwise.  For a time
  of signing and a validity that are not negative and an expiry before \<open>2^32\<close> seconds, the
  expiry is the time of signing plus the validity, in whole seconds; for key abc, quality
  720p and a validity of 3600 seconds at the whole second \<open>t\<close> the URL holds the path
  \<open>abc/720p/playlist.m3u8\<close> and the expiry \<open>t + 3600\<close>.
\<close>

theorem generate_signed_url_shape:
  "generate_signed_url h fl cfg now s q e =
     HLS_BASE_URL cfg @ ''/'' @ hls_path_of (stream_key s) q @ ''?md5='' @
     h (str_int (expires_of fl now e) @ hls_path_of (stream_key s) q @ HLS_SECRET_KEY cfg) @
     ''&expires='' @ str_int (expires_of fl now e) \<and>
   hls_path_of k ''auto'' = k @ ''/master.m3u8'' \<and>
   (q \<noteq> ''auto'' \<longrightarrow> hls_path_of k q = k @ ''/'' @ q @ ''/playlist.m3u8'') \<and>
   (0 \<le> now \<and> 0 \<le> e \<and> now + e * 1000000 < 4294967296 * 1000000 \<longrightarrow>
      expires_of fl now e = (now + e * 1000000) div 1000000) \<and>
   (0 \<le> t \<and> 0 \<le> e \<and> t + e < 4294967296 \<longrightarrow> expires_of fl (t * 1000000) e = t + e) \<and>
   (0 \<le> t \<and> t + 3600 < 4294967296 \<longrightarrow>
      generate_signed_url h fl cfg (t * 1000000) (s\<lparr>stream_key := ''abc''\<rparr>) ''720p'' 3600 =
        HLS_BASE_URL cfg @ ''/abc/720p/playlist.m3u8?md5='' @
        h (str_int (t + 3600) @ ''abc/720p/playlist.m3u8'' @ HLS_SECRET_KEY cfg) @
        ''&expires='' @ str_int (t + 3600))"
proof -
  have shape: "generate_signed_url h fl cfg now s q e =
     HLS_BASE_URL cfg @ ''/'' @ hls_path_of (stream_key s) q @ ''?md5='' @
     h (str_int (expires_of fl now e) @ hls_path_of (stream_key s) q @ HLS_SECRET_KEY cfg) @
     ''&expires='' @ str_int (expires_of fl now e)" for now s q e
    by (simp add: generate_signed_url_def Let_def)
  have paths: "hls_path_of k ''auto'' = k @ ''/master.m3u8''"
    "q \<noteq> ''auto'' \<longrightarrow> hls_path_of k q = k @ ''/'' @ q @ ''/playlist.m3u8''"
    by (simp_all add: hls_path_of_def)
  have exact: "0 \<le> now \<and> 0 \<le> e \<and> now + e * 1000000 < 4294967296 * 1000000 \<longrightarrow>
      expires_of fl now e = (now + e * 1000000) div 1000000"
    by (simp add: expires_of_exact)
  have whole: "0 \<le> t \<and> 0 \<le> e \<and> t + e < 4294967296 \<longrightarrow> expires_of fl (t * 1000000) e = t + e"
    by (simp add: expires_of_whole)
  have abc: "0 \<le> t \<and> t + 3600 < 4294967296 \<longrightarrow>
      generate_signed_url h fl cfg (t * 1000000) (s\<lparr>stream_key := ''abc''\<rparr>) ''720p'' 3600 =
        HLS_BASE_URL cfg @ ''/abc/720p/playlist.m3u8?md5='' @
        h (str_int (t + 3600) @ ''abc/720p/playlist.m3u8'' @ HLS_SECRET_KEY cfg) @
        ''&expires='' @ str_int (t + 3600)"
  proof
    assume "0 \<le> t \<and> t + 3600 < 4294967296"
    then have "expires_of fl (t * 1000000) 3600 = t + 3600"
      by (simp add: expires_of_whole)
    then show "generate_signed_url h fl cfg (t * 1000000) (s\<lparr>stream_key := ''abc''\<rparr>) ''720p'' 3600 =
        HLS_BASE_URL cfg @ ''/abc/720p/playlist.m3u8?md5='' @
        h (str_int (t + 3600) @ ''abc/720p/playlist.m3u8'' @ HLS_SECRET_KEY cfg) @
        ''&expires='' @ str_int (t + 3600)"
      by (simp add: shape hls_path_of_def)
  qed
  from shape [of now s q e] paths exact whole abc show ?thesis by (intro conjI)
qed

theorem generate_signed_url_shape_witness:
  "''720p'' \<noteq> ''auto'' \<and> (0::int) \<le> 1700000000 \<and> (1700000000::int) + 3600 < 4294967296 \<and>
   hls_path_of ''abc'' ''720p'' = ''abc/720p/playlist.m3u8'' \<and>
   expires_of (\<lambda>now e. 0) (1700000000 * 1000000) 3600 = 1700003600 \<and>
   generate_signed_url rev (\<lambda>now e. 0) demo_config (1700000000 * 1000000) (demo_stream ONLINE)
     ''720p'' 3600 =
     ''https://cdn.example.com/hls/abc/720p/playlist.m3u8?md5='' @
     rev ''1700003600abc/720p/playlist.m3u8k3y'' @ ''&expires=1700003600''"
proof -
  have str: "str_int 1700003600 = ''1700003600''"
    by (simp add: str_int_def str_nat.simps digit_char_def)
  have key: "(demo_stream ONLINE)\<lparr>stream_key := ''abc''\<rparr> = demo_stream ONLINE"
    by (simp add: demo_stream_def)
  show ?thesis
    using generate_signed_url_shape
      [where h = rev and fl = "\<lambda>now e. 0" and cfg = demo_config and s = "demo_stream ONLINE"
        and q = "''720p''" and e = 3600 and k = "''abc''" and t = 1700000000
        and now = "1700000000 * 1000000"]
    by (simp add: str key demo_config_def demo_stream_def hls_path_of_def expires_of_def
        int_seconds_def)
qed

section \<open>Viewer counts\<close>

lemma update_viewer_count_current:
  "current_viewers (update_viewer_count dl s) = max 0 (current_viewers s + dl)"
  by (simp add: update_viewer_count_def Let_def)

lemma update_viewer_count_peak:
  "peak_viewers (update_viewer_count dl s) =
     max (peak_viewers s) (max 0 (current_viewers s + dl))"
  by (auto simp: update_viewer_count_def Let_def max_def)

lemma viewer_counts_after_snoc:
  "viewer_counts_after s (ds @ [dl]) = update_viewer_count dl (viewer_counts_after s ds)"
  by (simp add: viewer_counts_after_def)

lemma viewer_counts_after_take_Suc:
  "n < length ds \<Longrightarrow>
   viewer_counts_after s (take (Suc n) ds) =
     update_viewer_count (ds ! n) (viewer_counts_after s (take n ds))"
  by (simp add: take_Suc_conv_app_nth viewer_counts_after_snoc)

lemma current_viewers_nonneg:
  "0 \<le> current_viewers s \<Longrightarrow> 0 \<le> current_viewers (viewer_counts_after s ds)"
  by (induction ds rule: rev_induct)
    (simp_all add: viewer_counts_after_def update_viewer_count_current)

lemma peak_viewers_is_Max:
  assumes "peak_viewers s = current_viewers s" "n \<le> length ds"
  shows "peak_viewers (viewer_counts_after s (take n ds)) =
         Max ((\<lambda>k. current_viewers (viewer_counts_after s (take k ds))) ` {..n})"
  using assms(2)
proof (induction n)
  case 0
  then show ?case by (simp add: viewer_counts_after_def assms(1))
next
  case (Suc n)
  then have n: "n < length ds" by simp
  let ?f = "\<lambda>k. current_viewers (viewer_counts_after s (take k ds))"
  have "Max (?f ` {..Suc n}) = max (?f (Suc n)) (Max (?f ` {..n}))"
    by (simp add: atMost_Suc)
  also have "Max (?f ` {..n}) = peak_viewers (viewer_counts_after s (take n ds))"
    using Suc by simp
  finally show ?case
    by (simp add: viewer_counts_after_take_Suc [OF n] update_viewer_count_peak
        update_viewer_count_current max.commute)
qed

text \<open>
  C2.  Starting from a stream with no viewers and no peak, after every prefix of a sequence
  of \<open>update_viewer_count\<close> calls with arbitrary deltas the current viewer count is not
  negative, and the peak is the largest value the current count has had so far (initially
  and after each call), hence at least the current count.
\<close>

theorem viewer_count_invariant:
  assumes "current_viewers s = 0" and "peak_viewers s = 0" and "n \<le> length deltas"
  shows "0 \<le> current_viewers (viewer_counts_after s (take n deltas)) \<and>
         peak_viewers (viewer_counts_after s (take n deltas)) =
           Max ((\<lambda>k. current_viewers (viewer_counts_after s (take k deltas))) ` {..n}) \<and>
         current_viewers (viewer_counts_after s (take n deltas)) \<le>
           peak_viewers (viewer_counts_after s (take n deltas))"
proof -
  let ?f = "\<lambda>k. current_viewers (viewer_counts_after s (take k deltas))"
  have nonneg: "0 \<le> ?f n"
    using assms(1) by (simp add: current_viewers_nonneg)
  have peak: "peak_viewers (viewer_counts_after s (take n deltas)) = Max (?f ` {..n})"
    using assms by (simp add: peak_viewers_is_Max)
  have "?f n \<le> Max (?f ` {..n})"
    by (rule Max_ge) simp_all
  with nonneg peak show ?thesis by simp
qed

theorem viewer_count_invariant_witness:
  "current_viewers (demo_stream ONLINE) = 0 \<and> peak_viewers (demo_stream ONLINE) = 0 \<and>
   (3::nat) \<le> length [2, - 5, 1 :: int] \<and>
   current_viewers (viewer_counts_after (demo_stream ONLINE) (take 3 [2, - 5, 1])) = 1 \<and>
   peak_viewers (viewer_counts_after (demo_stream ONLINE) (take 3 [2, - 5, 1])) = 2 \<and>
   Max ((\<lambda>k. current_viewers (viewer_counts_after (demo_stream ONLINE) (take k [2, - 5, 1])))
          ` {..3}) = 2"
proof -
  have h: "current_viewers (demo_stream ONLINE) = 0" "peak_viewers (demo_stream ONLINE) = 0"
    "(3::nat) \<le> length [2, - 5, 1 :: int]"
    by (simp_all add: demo_stream_def)
  have v: "current_viewers (viewer_counts_after (demo_stream ONLINE) (take 3 [2, - 5, 1])) = 1"
    "peak_viewers (viewer_counts_after (demo_stream ONLINE) (take 3 [2, - 5, 1])) = 2"
    by (simp_all add: viewer_counts_after_def update_viewer_count_def demo_stream_def Let_def)
  from viewer_count_invariant [OF h] h v show ?thesis by simp
qed

section \<open>Table lookups\<close>

lemmas demo_defs =
  demo_db_def demo_stream_def demo_session_def demo_user_def demo_clock_def demo_config_def
  demo_env_def demo_request_def demo_session_request_def demo_backend_def
  FREE_def BASIC_def PREMIUM_def ULTRA_def ONLINE_def OFFLINE_def

lemmas view_defs =
  objects_get_def stream_get_object_def stream_queryset_def truthy_def session_get_object_def
  session_queryset_def stream_by_key_def save_stream_def save_session_def save_viewer_counts_def
  save_user_usage_def update_viewer_count_def end_instance_def end_session_def int_seconds_def
  integer_ok_def big_integer_ok_def heartbeat_fits_def duration_seconds_def Let_def

lemma demo_wf: "wf_db (demo_db st)"
  by (simp add: wf_db_def demo_defs str_nat.simps digit_char_def)

lemma objects_get_Inr: "objects_get e P rows = Inr r \<Longrightarrow> filter P rows = [r]"
  by (simp add: objects_get_def split: list.splits)

lemma objects_get_single: "filter P rows = [r] \<Longrightarrow> objects_get e P rows = Inr r"
  by (simp add: objects_get_def)

lemma objects_get_empty: "filter P rows = [] \<Longrightarrow> objects_get e P rows = Inl e"
  by (simp add: objects_get_def)

lemma filter_key_absent: "k \<notin> set (map f rows) \<Longrightarrow> filter (\<lambda>r. f r = k) rows = []"
  by (induction rows) auto

lemma filter_key_distinct:
  "distinct (map f rows) \<Longrightarrow> r \<in> set rows \<Longrightarrow> filter (\<lambda>x. f x = f r) rows = [r]"
proof (induction rows)
  case Nil
  then show ?case by simp
next
  case (Cons a rows)
  show ?case
  proof (cases "a = r")
    case True
    with Cons.prems have "f r \<notin> set (map f rows)" by simp
    then have "filter (\<lambda>x. f x = f r) rows = []" by (rule filter_key_absent)
    with True show ?thesis by simp
  next
    case False
    with Cons.prems have "r \<in> set rows" "f a \<noteq> f r" by auto
    with Cons show ?thesis by simp
  qed
qed

lemma same_key_same_row:
  "distinct (map f rows) \<Longrightarrow> r \<in> set rows \<Longrightarrow> x \<in> set rows \<Longrightarrow> f x = f r \<Longrightarrow> x = r"
  by (meson distinct_map inj_on_def)

lemma key_in_rows: "k \<in> set (map f rows) \<Longrightarrow> \<exists>r. r \<in> set rows \<and> f r = k"
  by auto

lemma objects_get_unique:
  "distinct (map f rows) \<Longrightarrow> r \<in> set rows \<Longrightarrow> objects_get e (\<lambda>x. f x = f r) rows = Inr r"
  by (simp add: objects_get_single filter_key_distinct)

lemma update_same_pk:
  assumes "distinct (map f rows)" "s \<in> set rows"
  shows "map (\<lambda>r. if f r = f s then g s else r) rows = map (\<lambda>r. if r = s then g r else r) rows"
proof (rule map_cong [OF refl])
  fix x assume "x \<in> set rows"
  with assms have "f x = f s \<longleftrightarrow> x = s" by (auto dest: same_key_same_row)
  then show "(if f x = f s then g s else x) = (if x = s then g x else x)" by auto
qed

lemma filter_by_keys:
  assumes "distinct (map f rows)"
  shows "filter (\<lambda>r. f r \<in> f ` set (filter P rows)) rows = filter P rows"
proof (rule filter_cong [OF refl])
  fix r assume r: "r \<in> set rows"
  show "(f r \<in> f ` set (filter P rows)) = P r"
  proof
    assume "f r \<in> f ` set (filter P rows)"
    then obtain x where x: "x \<in> set rows" "P x" "f r = f x" by auto
    with assms r have "r = x" by (auto dest: same_key_same_row)
    with x show "P r" by simp
  next
    assume "P r"
    with r show "f r \<in> f ` set (filter P rows)" by auto
  qed
qed

section \<open>Playback URL issuance\<close>

lemma issue_playback_not_forbidden:
  "fst (issue_playback env rq s q d) \<noteq> Inl (QualityForbidden q' m)"
  by (simp add: issue_playback_def Let_def split: sum.splits if_splits)

lemma stream_get_object_not_forbidden:
  "stream_get_object rq d \<noteq> Inl (QualityForbidden q m)"
  by (simp add: stream_get_object_def split: sum.splits exn.splits)

lemma demo_playback_auto:
  "get_playback_url demo_env (demo_request FREE (Some ''auto'')) (demo_db ONLINE) =
     (Inr (Playback
        ''https://cdn.example.com/hls/abc/master.m3u8?md5=y3k8u3m.retsam/cba0163&expires=3610''
        ''0b1e'' ''auto'' [''360p'', ''480p'', ''720p'', ''1080p''] 3600),
      (demo_db ONLINE)
        \<lparr>streams := [(demo_stream ONLINE)\<lparr>current_viewers := 3, peak_viewers := 3\<rparr>],
         sessions := sessions (demo_db ONLINE) @
           [\<lparr>session_pk = 4, user_id = 1, stream_id = 1, session_id = ''0b1e'',
             device_type = ''tv'', quality = ''auto'', ip_address = ''10.0.0.9'',
             user_agent = [], isp_detected = [], vs_started_at = 11500000,
             last_heartbeat = 13000000, vs_ended_at = None, watch_duration = 0,
             data_consumed = 0, buffer_count = 0, quality_switches = 0,
             average_bitrate = 0\<rparr>]\<rparr>)"
  by (simp add: get_playback_url_def issue_playback_def create_session_def prepared_ip_def
      get_client_ip_def next_pk_def generate_signed_url_def expires_of_def hls_path_of_def
      str_int_def str_nat.simps digit_char_def view_defs demo_defs)

text \<open>
  C5, as the code has it.  \<open>can_watch_quality\<close> itself answers false for the label auto,
  whatever the tier (for ULTRA below); auto is permitted by \<open>get_playback_url\<close>, which does not
  consult \<open>can_watch_quality\<close> when the requested quality is auto or absent.
\<close>

theorem can_watch_auto_counterexample:
  "can_watch_quality (demo_user 1 ULTRA) ''auto'' = Inr False"
  by (simp add: can_watch_quality_def quality_hierarchy_def max_quality_def quality_map_def
      demo_user_def FREE_def BASIC_def PREMIUM_def ULTRA_def)

text \<open>
  C5, amended.  For every user \<open>can_watch_quality\<close> answers false for auto; a request whose
  quality is auto (or absent, which defaults to auto) is never answered with
  \<open>QualityForbidden\<close>, and on an online stream it goes on to issue the playback URL.
\<close>

theorem auto_quality_gate:
  assumes "data_quality rq = None \<or> data_quality rq = Some ''auto''"
  shows "can_watch_quality u ''auto'' = Inr False \<and>
         fst (get_playback_url env rq d) \<noteq> Inl (QualityForbidden q m) \<and>
         (\<forall>s. stream_get_object rq d = Inr s \<and> status s = ONLINE \<longrightarrow>
              get_playback_url env rq d = issue_playback env rq s ''auto'' d)"
proof -
  have a: "can_watch_quality u ''auto'' = Inr False"
    by (simp add: can_watch_quality_rank spec_rank_def)
  have q: "(case data_quality rq of Some q \<Rightarrow> q | None \<Rightarrow> ''auto'') = ''auto''"
    using assms by auto
  have b: "fst (get_playback_url env rq d) \<noteq> Inl (QualityForbidden q m)"
    using stream_get_object_not_forbidden [of rq d q m]
    by (auto simp: get_playback_url_def q Let_def issue_playback_not_forbidden split: sum.splits)
  have c: "\<forall>s. stream_get_object rq d = Inr s \<and> status s = ONLINE \<longrightarrow>
              get_playback_url env rq d = issue_playback env rq s ''auto'' d"
    by (simp add: get_playback_url_def q Let_def)
  from a b c show ?thesis by simp
qed

theorem auto_quality_gate_witness:
  "data_quality (demo_request FREE (Some ''auto'')) = Some ''auto'' \<and>
   can_watch_quality (demo_user 1 FREE) ''auto'' = Inr False \<and>
   fst (get_playback_url demo_env (demo_request FREE (Some ''auto'')) (demo_db ONLINE)) =
     Inr (Playback
        ''https://cdn.example.com/hls/abc/master.m3u8?md5=y3k8u3m.retsam/cba0163&expires=3610''
        ''0b1e'' ''auto'' [''360p'', ''480p'', ''720p'', ''1080p''] 3600)"
  using auto_quality_gate
    [where rq = "demo_request FREE (Some ''auto'')" and u = "demo_user 1 FREE"
      and env = demo_env and d = "demo_db ONLINE"]
    demo_playback_auto
  by (simp add: demo_request_def)

text \<open>
  C6.  When the stream found is not online, \<open>get_playback_url\<close> answers \<open>StreamOffline\<close>;
  when it is online, the requested quality is not auto and \<open>can_watch_quality\<close> is false, it
  answers \<open>QualityForbidden\<close> with the user's maximum quality (480p for a BASIC user asking
  for 1080p); in both cases the database is returned as it was.
\<close>

theorem start_session_failures:
  assumes "stream_get_object rq d = Inr s"
  shows "(status s \<noteq> ONLINE \<longrightarrow> get_playback_url env rq d = (Inl StreamOffline, d)) \<and>
         (status s = ONLINE \<and> data_quality rq = Some q \<and> q \<noteq> ''auto'' \<and>
          can_watch_quality (request_user rq) q = Inr False \<longrightarrow>
            get_playback_url env rq d =
              (Inl (QualityForbidden q (max_quality (request_user rq))), d)) \<and>
         (status s = ONLINE \<and> data_quality rq = Some ''1080p'' \<and>
          subscription_tier (request_user rq) = BASIC \<longrightarrow>
            get_playback_url env rq d = (Inl (QualityForbidden ''1080p'' ''480p''), d))"
proof -
  have a: "status s \<noteq> ONLINE \<longrightarrow> get_playback_url env rq d = (Inl StreamOffline, d)"
    using assms by (simp add: get_playback_url_def)
  have b: "status s = ONLINE \<and> data_quality rq = Some q \<and> q \<noteq> ''auto'' \<and>
          can_watch_quality (request_user rq) q = Inr False \<longrightarrow>
            get_playback_url env rq d =
              (Inl (QualityForbidden q (max_quality (request_user rq))), d)"
    using assms by (simp add: get_playback_url_def Let_def)
  have c: "status s = ONLINE \<and> data_quality rq = Some ''1080p'' \<and>
          subscription_tier (request_user rq) = BASIC \<longrightarrow>
            get_playback_url env rq d = (Inl (QualityForbidden ''1080p'' ''480p''), d)"
    using assms
    by (simp add: get_playback_url_def Let_def can_watch_quality_rank spec_rank_def
        max_quality_cases BASIC_def)
  from a b c show ?thesis by simp
qed

lemma demo_get_stream:
  "stream_get_object (demo_request tier q) (demo_db st) = Inr (hd (streams (demo_db st)))"
  by (simp add: view_defs demo_defs)

theorem start_session_failures_witness:
  "stream_get_object (demo_request BASIC (Some ''1080p'')) (demo_db OFFLINE) =
     Inr (hd (streams (demo_db OFFLINE))) \<and>
   status (hd (streams (demo_db OFFLINE))) \<noteq> ONLINE \<and>
   get_playback_url demo_env (demo_request BASIC (Some ''1080p'')) (demo_db OFFLINE) =
     (Inl StreamOffline, demo_db OFFLINE) \<and>
   status (hd (streams (demo_db ONLINE))) = ONLINE \<and>
   subscription_tier (request_user (demo_request BASIC (Some ''1080p''))) = BASIC \<and>
   get_playback_url demo_env (demo_request BASIC (Some ''1080p'')) (demo_db ONLINE) =
     (Inl (QualityForbidden ''1080p'' ''480p''), demo_db ONLINE)"
proof -
  have off: "status (hd (streams (demo_db OFFLINE))) \<noteq> ONLINE"
    and on: "status (hd (streams (demo_db ONLINE))) = ONLINE"
    and rq: "data_quality (demo_request BASIC (Some ''1080p'')) = Some ''1080p''"
      "subscription_tier (request_user (demo_request BASIC (Some ''1080p''))) = BASIC"
    by (simp_all add: demo_defs)
  from start_session_failures
      [where env = demo_env and q = "''1080p''",
        OF demo_get_stream [of BASIC "Some ''1080p''" OFFLINE]]
    start_session_failures
      [where env = demo_env and q = "''1080p''",
        OF demo_get_stream [of BASIC "Some ''1080p''" ONLINE]]
    off on rq demo_get_stream [of BASIC "Some ''1080p''"]
  show ?thesis by simp
qed

lemma get_playback_url_success:
  assumes "get_playback_url env rq d = (Inr resp, d')"
  shows "\<exists>s q. stream_get_object rq d = Inr s \<and> status s = ONLINE \<and>
           (q \<noteq> ''auto'' \<longrightarrow> can_watch_quality (request_user rq) q = Inr True) \<and>
           q = (case data_quality rq of Some q \<Rightarrow> q | None \<Rightarrow> ''auto'') \<and>
           issue_playback env rq s q d = (Inr resp, d')"
  using assms
  by (auto simp: get_playback_url_def Let_def split: sum.splits if_splits bool.splits)

lemma create_session_Inr:
  assumes "create_session cl t1 t2 u s sid dev q ip agent d = Inr d1"
  shows "\<exists>v. d1 = d\<lparr>sessions := sessions d @ [v]\<rparr> \<and> session_id v = sid \<and>
             sid \<notin> set (map session_id (sessions d)) \<and> vs_ended_at v = None \<and>
             user_id v = user_pk u \<and> stream_id v = stream_pk s \<and> quality v = q \<and>
             session_pk v = next_pk (map session_pk (sessions d)) \<and>
             vs_started_at v = t1 \<and> watch_duration v = 0 \<and> data_consumed v = 0"
  using assms
  by (auto simp: create_session_def split: option.splits if_splits)

lemma fold_max_ge: "x \<in> set ks \<Longrightarrow> x \<le> fold max ks (a::nat)"
proof (induction ks arbitrary: a)
  case Nil then show ?case by simp
next
  case (Cons k ks)
  have mono: "a \<le> fold max ks a" for a :: nat
    by (induction ks arbitrary: a) (auto intro: order_trans [OF max.cobounded2])
  show ?case
  proof (cases "x = k")
    case True
    then show ?thesis using mono [of "max k a"] by simp
  next
    case False
    with Cons show ?thesis by simp
  qed
qed

lemma next_pk_fresh: "next_pk ks \<notin> set ks"
  using fold_max_ge [of "next_pk ks" ks 0] by (auto simp: next_pk_def)

text \<open>
  C3, as the code has it.  A successful \<open>get_playback_url\<close> leaves \<open>total_views\<close> as it was:
  no statement of the repository assigns that field.
\<close>

theorem start_session_total_views_counterexample:
  "fst (get_playback_url demo_env (demo_request FREE (Some ''auto'')) (demo_db ONLINE)) =
     Inr (Playback
        ''https://cdn.example.com/hls/abc/master.m3u8?md5=y3k8u3m.retsam/cba0163&expires=3610''
        ''0b1e'' ''auto'' [''360p'', ''480p'', ''720p'', ''1080p''] 3600) \<and>
   map total_views (streams (demo_db ONLINE)) = [0] \<and>
   map total_views
     (streams (snd (get_playback_url demo_env (demo_request FREE (Some ''auto'')) (demo_db ONLINE)))) =
     [0]"
  by (simp add: demo_playback_auto) (simp add: demo_defs)

text \<open>
  C3, amended.  A successful \<open>get_playback_url\<close> found the stream online, stores exactly one
  new session whose \<open>session_id\<close> is the generated identifier, which no stored session has,
  under a new primary key, active (\<open>vs_ended_at\<close> is null), owned by the requesting user
  and the stream; it applies \<open>update_viewer_count\<close> with delta 1 to the stream and saves the two
  counters; \<open>total_views\<close> and the users are left as they were.
\<close>

theorem start_session_success:
  assumes "get_playback_url env rq d = (Inr resp, d')"
  shows "\<exists>s v url q.
           stream_get_object rq d = Inr s \<and> status s = ONLINE \<and>
           resp = Playback url (uuid4 env) q (available_qualities s) 3600 \<and>
           uuid4 env \<notin> set (map session_id (sessions d)) \<and>
           sessions d' = sessions d @ [v] \<and>
           session_id v = uuid4 env \<and>
           session_pk v \<notin> set (map session_pk (sessions d)) \<and>
           vs_ended_at v = None \<and>
           user_id v = user_pk (request_user rq) \<and> stream_id v = stream_pk s \<and>
           streams d' =
             map (\<lambda>r. if stream_pk r = stream_pk s
                      then r\<lparr>current_viewers := max 0 (current_viewers s + 1),
                             peak_viewers := max (peak_viewers s) (max 0 (current_viewers s + 1))\<rparr>
                      else r) (streams d) \<and>
           map total_views (streams d') = map total_views (streams d) \<and>
           users d' = users d"
proof -
  from get_playback_url_success [OF assms] obtain s q where
    s: "stream_get_object rq d = Inr s" "status s = ONLINE"
    and ip: "issue_playback env rq s q d = (Inr resp, d')" by blast
  from ip obtain d1 where
    cr: "create_session (clean_ipv6_address env) (clk env 1) (clk env 2) (request_user rq) s
           (uuid4 env) (case data_device_type rq of Some dev \<Rightarrow> dev | None \<Rightarrow> ''unknown'') q
           (get_client_ip rq) (case HTTP_USER_AGENT rq of Some a \<Rightarrow> a | None \<Rightarrow> []) d = Inr d1"
    and resp: "resp = Playback
                 (generate_signed_url (md5_hex env) (float_expires env) (config env) (clk env 0)
                    s q 3600)
                 (uuid4 env) q (available_qualities s) 3600"
    and d': "d' = save_viewer_counts (update_viewer_count 1 s) d1"
    by (auto simp: issue_playback_def Let_def split: sum.splits if_splits)
  from create_session_Inr [OF cr] obtain v where
    v: "d1 = d\<lparr>sessions := sessions d @ [v]\<rparr>" "session_id v = uuid4 env"
      "uuid4 env \<notin> set (map session_id (sessions d))" "vs_ended_at v = None"
      "user_id v = user_pk (request_user rq)" "stream_id v = stream_pk s"
      "session_pk v = next_pk (map session_pk (sessions d))" by blast
  have fresh: "session_pk v \<notin> set (map session_pk (sessions d))"
    unfolding v(7) by (rule next_pk_fresh)
  have st: "streams d' =
             map (\<lambda>r. if stream_pk r = stream_pk s
                      then r\<lparr>current_viewers := max 0 (current_viewers s + 1),
                             peak_viewers := max (peak_viewers s) (max 0 (current_viewers s + 1))\<rparr>
                      else r) (streams d)"
    by (simp add: d' v(1) save_viewer_counts_def update_viewer_count_current
        update_viewer_count_peak update_viewer_count_def Let_def)
  have tv: "map total_views (streams d') = map total_views (streams d)"
    unfolding st by (simp add: comp_def cong: map_cong)
  have se: "sessions d' = sessions d @ [v]" "users d' = users d"
    by (simp_all add: d' v(1) save_viewer_counts_def)
  from s resp v fresh st tv se show ?thesis by blast
qed

theorem start_session_success_witness:
  "get_playback_url demo_env (demo_request FREE (Some ''auto'')) (demo_db ONLINE) =
     (Inr (Playback
        ''https://cdn.example.com/hls/abc/master.m3u8?md5=y3k8u3m.retsam/cba0163&expires=3610''
        ''0b1e'' ''auto'' [''360p'', ''480p'', ''720p'', ''1080p''] 3600),
      snd (get_playback_url demo_env (demo_request FREE (Some ''auto'')) (demo_db ONLINE))) \<and>
   map session_id
     (sessions (snd (get_playback_url demo_env (demo_request FREE (Some ''auto'')) (demo_db ONLINE)))) =
     [''1'', ''2'', ''3'', ''0b1e''] \<and>
   map current_viewers
     (streams (snd (get_playback_url demo_env (demo_request FREE (Some ''auto'')) (demo_db ONLINE)))) =
     [3]"
proof -
  have run: "get_playback_url demo_env (demo_request FREE (Some ''auto'')) (demo_db ONLINE) =
     (Inr (Playback
        ''https://cdn.example.com/hls/abc/master.m3u8?md5=y3k8u3m.retsam/cba0163&expires=3610''
        ''0b1e'' ''auto'' [''360p'', ''480p'', ''720p'', ''1080p''] 3600),
      snd (get_playback_url demo_env (demo_request FREE (Some ''auto'')) (demo_db ONLINE)))"
    by (simp add: demo_playback_auto)
  have ids: "map session_id
     (sessions (snd (get_playback_url demo_env (demo_request FREE (Some ''auto'')) (demo_db ONLINE)))) =
     [''1'', ''2'', ''3'', ''0b1e'']"
    by (simp add: demo_playback_auto) (simp add: demo_defs str_nat.simps digit_char_def)
  have cur: "map current_viewers
     (streams (snd (get_playback_url demo_env (demo_request FREE (Some ''auto'')) (demo_db ONLINE)))) =
     [3]"
    by (simp add: demo_playback_auto)
  from start_session_success [OF run] run ids cur show ?thesis by blast
qed

section \<open>Heartbeats and the end of a session\<close>

lemma session_get_object_Inr:
  "session_get_object rq d = Inr v \<Longrightarrow>
   filter (\<lambda>v. session_pk v = session_request_pk rq) (session_queryset rq d) = [v]"
  by (auto simp: session_get_object_def dest: objects_get_Inr split: sum.splits exn.splits)

lemma session_get_object_single:
  "filter (\<lambda>v. session_pk v = session_request_pk rq) (session_queryset rq d) = [v] \<Longrightarrow>
   session_get_object rq d = Inr v"
  by (simp add: session_get_object_def objects_get_single)

text \<open>
  C4.  The claim does not hold of \<open>heartbeat\<close>, which never reads \<open>ended_at\<close>, although
  \<open>end_session\<close> guards on it: on the ended session 3 of the scenario (\<open>vs_ended_at\<close> is set,
  \<open>data_consumed\<close> 7, \<open>quality_switches\<close> 0) a heartbeat that provides \<open>quality_switches\<close> 4 and
  \<open>data_consumed\<close> 99 is answered ok and stores both values and a new \<open>last_heartbeat\<close>.  The
  last part of the claim holds there: a heartbeat for the primary key 9, which no session
  has, is answered with \<open>NotFound\<close> and changes nothing.
\<close>

theorem heartbeat_on_ended_session:
  "vs_ended_at (sessions (demo_db ONLINE) ! 2) = Some 5000000 \<and>
   data_consumed (sessions (demo_db ONLINE) ! 2) = 7 \<and>
   quality_switches (sessions (demo_db ONLINE) ! 2) = 0 \<and>
   last_heartbeat (sessions (demo_db ONLINE) ! 2) = 2000000 \<and>
   heartbeat demo_clock (demo_session_request 3) demo_heartbeat (demo_db ONLINE) =
     (Inr Status_ok,
      (demo_db ONLINE)
        \<lparr>sessions :=
           [demo_session 1 1 None, demo_session 2 2 None,
            (demo_session 3 1 (Some 5000000))
              \<lparr>last_heartbeat := 11500000, quality_switches := 4, data_consumed := 99\<rparr>]\<rparr>) \<and>
   heartbeat demo_clock (demo_session_request 9) demo_heartbeat (demo_db ONLINE) =
     (Inl NotFound, demo_db ONLINE)"
  by (simp add: heartbeat_def merge_heartbeat_def demo_heartbeat_def view_defs demo_defs)

lemma update_viewer_count_pk: "stream_pk (update_viewer_count dl s) = stream_pk s"
  by (simp add: update_viewer_count_def Let_def)

lemma save_viewer_counts_update:
  "save_viewer_counts (update_viewer_count dl s) d =
     d\<lparr>streams :=
        map (\<lambda>r. if stream_pk r = stream_pk s
                 then r\<lparr>current_viewers := max 0 (current_viewers s + dl),
                        peak_viewers := max (peak_viewers s) (max 0 (current_viewers s + dl))\<rparr>
                 else r) (streams d)\<rparr>"
  by (simp add: save_viewer_counts_def update_viewer_count_pk update_viewer_count_current
      update_viewer_count_peak)

lemma end_session_rows:
  assumes act: "vs_ended_at v = None"
    and ds: "distinct (map stream_pk (streams d))"
    and fs: "stream_id v \<in> set (map stream_pk (streams d))"
    and du: "distinct (map user_pk (users d))"
    and fu: "user_id v \<in> set (map user_pk (users d))"
    and fit_w: "integer_ok (db_backend d) (watch_duration (end_instance fd now ns v))"
    and fit_c: "\<forall>r \<in> set (streams d). stream_pk r = stream_id v \<longrightarrow>
                  integer_ok (db_backend d) (max 0 (current_viewers r - 1))"
    and fit_u: "\<forall>r \<in> set (users d). user_pk r = user_id v \<longrightarrow>
                  integer_ok (db_backend d)
                    (total_watch_time r + watch_duration (end_instance fd now ns v)) \<and>
                  big_integer_ok (db_backend d)
                    (monthly_data_used r + data_consumed (end_instance fd now ns v))"
  shows "end_session fd now ns v d =
           (Inr (end_instance fd now ns v),
            d\<lparr>streams := map (stream_row_step (end_instance fd now ns v)) (streams d),
              sessions := map (session_row_step (end_instance fd now ns v)) (sessions d),
              users := map (user_row_step (end_instance fd now ns v)) (users d)\<rparr>)"
proof -
  let ?v = "end_instance fd now ns v"
  have keep: "stream_id ?v = stream_id v" "user_id ?v = user_id v" "session_pk ?v = session_pk v"
    "?v\<lparr>last_heartbeat := ns\<rparr> = ?v"
    by (simp_all add: end_instance_def)
  from fs obtain s where s: "s \<in> set (streams d)" "stream_pk s = stream_id v"
    by (auto dest: key_in_rows)
  from fu obtain u where u: "u \<in> set (users d)" "user_pk u = user_id v"
    by (auto dest: key_in_rows)
  let ?d1 = "save_session ns ?v d"
  have d1: "streams ?d1 = streams d" "users ?d1 = users d"
    "sessions ?d1 = map (session_row_step ?v) (sessions d)" "db_backend ?d1 = db_backend d"
    by (simp_all add: save_session_def keep session_row_step_def)
  have gs: "objects_get StreamDoesNotExist (\<lambda>r. stream_pk r = stream_id ?v) (streams ?d1) = Inr s"
    using objects_get_unique [OF ds s(1), of StreamDoesNotExist] by (simp add: d1 keep s(2))
  let ?s = "update_viewer_count (- 1) s"
  have ok_c: "integer_ok (db_backend ?d1) (current_viewers ?s)"
    using fit_c s by (simp add: d1 update_viewer_count_current)
  let ?d2 = "save_viewer_counts ?s ?d1"
  have m1: "x = s" if "x \<in> set (streams d)" "stream_pk x = stream_id v" for x
    using same_key_same_row [OF ds s(1) that(1)] that(2) s(2) by simp
  have d2s: "streams ?d2 = map (stream_row_step ?v) (streams d)"
    by (auto simp: save_viewer_counts_update d1 stream_row_step_def keep s(2) dest: m1)
  have d2: "users ?d2 = users d" "sessions ?d2 = map (session_row_step ?v) (sessions d)"
    "db_backend ?d2 = db_backend d"
    by (simp_all add: save_viewer_counts_update d1)
  have gu: "objects_get UserDoesNotExist (\<lambda>r. user_pk r = user_id ?v) (users ?d2) = Inr u"
    using objects_get_unique [OF du u(1), of UserDoesNotExist] by (simp add: d2 keep u(2))
  let ?u = "u\<lparr>total_watch_time := total_watch_time u + watch_duration ?v,
               monthly_data_used := monthly_data_used u + data_consumed ?v\<rparr>"
  have ok_u: "integer_ok (db_backend ?d2) (total_watch_time ?u)"
    "big_integer_ok (db_backend ?d2) (monthly_data_used ?u)"
    using fit_u u by (simp_all add: d2)
  have m2: "x = u" if "x \<in> set (users d)" "user_pk x = user_id v" for x
    using same_key_same_row [OF du u(1) that(1)] that(2) u(2) by simp
  have d3u: "users (save_user_usage ?u ?d2) = map (user_row_step ?v) (users d)"
    by (auto simp: save_user_usage_def d2 user_row_step_def keep u(2) dest: m2)
  have d3: "streams (save_user_usage ?u ?d2) = map (stream_row_step ?v) (streams d)"
    "sessions (save_user_usage ?u ?d2) = map (session_row_step ?v) (sessions d)"
    by (simp_all add: save_user_usage_def d2 d2s)
  have "end_session fd now ns v d = (Inr ?v, save_user_usage ?u ?d2)"
    unfolding end_session_def Let_def
    by (simp only: act fit_w gs ok_c gu ok_u if_True if_False not_True_eq_False simp_thms
        sum.case)
  moreover have "save_user_usage ?u ?d2 =
      d\<lparr>streams := map (stream_row_step ?v) (streams d),
        sessions := map (session_row_step ?v) (sessions d),
        users := map (user_row_step ?v) (users d)\<rparr>"
    using d3u d3 by (simp add: save_user_usage_def save_viewer_counts_def save_session_def)
  ultimately show ?thesis by simp
qed

lemma end_session_ended:
  "vs_ended_at v \<noteq> None \<Longrightarrow> end_session fd now ns v d = (Inr v, d)"
  by (auto simp: end_session_def)

lemma end_session_active_Inr:
  assumes "vs_ended_at v = None" "end_session fd now ns v d = (Inr v', d')"
  shows "v' = end_instance fd now ns v \<and>
         sessions d' = map (\<lambda>r. if session_pk r = session_pk v then v' else r) (sessions d)"
  using assms
  by (auto simp: end_session_def Let_def save_session_def save_viewer_counts_def
      save_user_usage_def end_instance_def split: sum.splits if_splits)

text \<open>
  C1.  Under the constraints of the schema, \<open>end_view\<close> on a session that is active, with
  every number that it stores inside its column, answers with the duration in whole
  seconds and the session's \<open>data_consumed\<close>, stores the session as ended, lowers the viewer
  count of its stream by one (not below 0) and adds the duration and \<open>data_consumed\<close> to the
  two totals of its user, and changes nothing else.  When the session found is already
  ended, \<open>end_view\<close> answers with its stored \<open>watch_duration\<close> and \<open>data_consumed\<close> and returns the
  database as it was; and after any successful \<open>end_view\<close> a second one on the same
  session, at any later readings of the clock, answers with the same two values and leaves
  every table as the first call left it.  So the viewer count is decremented and the user's
  totals are increased exactly once.
\<close>

theorem end_session_idempotent:
  "(wf_db d \<and> session_get_object rq d = Inr v \<and> vs_ended_at v = None \<and>
    integer_ok (db_backend d) (duration_seconds fd (c 0 - vs_started_at v)) \<and>
    (\<forall>r \<in> set (streams d). stream_pk r = stream_id v \<longrightarrow>
       integer_ok (db_backend d) (max 0 (current_viewers r - 1))) \<and>
    (\<forall>r \<in> set (users d). user_pk r = user_id v \<longrightarrow>
       integer_ok (db_backend d) (total_watch_time r + duration_seconds fd (c 0 - vs_started_at v)) \<and>
       big_integer_ok (db_backend d) (monthly_data_used r + data_consumed v)) \<longrightarrow>
      end_view fd c rq d =
        (Inr (Status_ended (duration_seconds fd (c 0 - vs_started_at v)) (data_consumed v)),
         d\<lparr>streams :=
              map (\<lambda>r. if stream_pk r = stream_id v
                       then r\<lparr>current_viewers := max 0 (current_viewers r - 1),
                              peak_viewers :=
                                max (peak_viewers r) (max 0 (current_viewers r - 1))\<rparr>
                       else r) (streams d),
           sessions :=
              map (\<lambda>r. if session_pk r = session_pk v
                       then v\<lparr>vs_ended_at := Some (c 0),
                              watch_duration := duration_seconds fd (c 0 - vs_started_at v),
                              last_heartbeat := c 1\<rparr>
                       else r) (sessions d),
           users :=
              map (\<lambda>r. if user_pk r = user_id v
                       then r\<lparr>total_watch_time :=
                                total_watch_time r + duration_seconds fd (c 0 - vs_started_at v),
                              monthly_data_used := monthly_data_used r + data_consumed v\<rparr>
                       else r) (users d)\<rparr>)) \<and>
   (session_get_object rq d = Inr v \<and> vs_ended_at v \<noteq> None \<longrightarrow>
      end_view fd c rq d = (Inr (Status_ended (watch_duration v) (data_consumed v)), d)) \<and>
   (wf_db d \<and> end_view fd c rq d = (Inr resp, d') \<longrightarrow> end_view fd c' rq d' = (Inr resp, d'))"
proof (intro conjI impI)
  note [simp del] = One_nat_def
  assume a: "wf_db d \<and> session_get_object rq d = Inr v \<and> vs_ended_at v = None \<and>
    integer_ok (db_backend d) (duration_seconds fd (c 0 - vs_started_at v)) \<and>
    (\<forall>r \<in> set (streams d). stream_pk r = stream_id v \<longrightarrow>
       integer_ok (db_backend d) (max 0 (current_viewers r - 1))) \<and>
    (\<forall>r \<in> set (users d). user_pk r = user_id v \<longrightarrow>
       integer_ok (db_backend d) (total_watch_time r + duration_seconds fd (c 0 - vs_started_at v)) \<and>
       big_integer_ok (db_backend d) (monthly_data_used r + data_consumed v))"
  let ?v = "end_instance fd (c 0) (c 1) v"
  have fields: "watch_duration ?v = duration_seconds fd (c 0 - vs_started_at v)"
    "data_consumed ?v = data_consumed v"
    by (simp_all add: end_instance_def)
  from a have get: "session_get_object rq d = Inr v" and act: "vs_ended_at v = None" by simp_all
  from get have "filter (\<lambda>x. session_pk x = session_request_pk rq) (session_queryset rq d) = [v]"
    by (rule session_get_object_Inr)
  then have "v \<in> set (filter (\<lambda>x. session_pk x = session_request_pk rq) (session_queryset rq d))"
    by simp
  then have vin: "v \<in> set (sessions d)" by (auto simp: session_queryset_def split: if_splits)
  from a have ds: "distinct (map stream_pk (streams d))"
    and du: "distinct (map user_pk (users d))"
    and fk: "\<forall>x \<in> set (sessions d). stream_id x \<in> set (map stream_pk (streams d)) \<and>
               user_id x \<in> set (map user_pk (users d))"
    by (simp_all add: wf_db_def list_all_iff)
  from fk vin have fs: "stream_id v \<in> set (map stream_pk (streams d))"
    and fu: "user_id v \<in> set (map user_pk (users d))" by blast+
  have run: "end_session fd (c 0) (c 1) v d =
           (Inr ?v,
            d\<lparr>streams := map (stream_row_step ?v) (streams d),
              sessions := map (session_row_step ?v) (sessions d),
              users := map (user_row_step ?v) (users d)\<rparr>)"
  proof (rule end_session_rows [OF act ds fs du fu])
    show "integer_ok (db_backend d) (watch_duration ?v)" using a by (simp add: fields)
    show "\<forall>r \<in> set (streams d). stream_pk r = stream_id v \<longrightarrow>
            integer_ok (db_backend d) (max 0 (current_viewers r - 1))" using a by blast
    show "\<forall>r \<in> set (users d). user_pk r = user_id v \<longrightarrow>
            integer_ok (db_backend d) (total_watch_time r + watch_duration ?v) \<and>
            big_integer_ok (db_backend d) (monthly_data_used r + data_consumed ?v)"
      using a unfolding fields by blast
  qed
  have steps: "stream_row_step ?v =
      (\<lambda>r. if stream_pk r = stream_id v
            then r\<lparr>current_viewers := max 0 (current_viewers r - 1),
                   peak_viewers := max (peak_viewers r) (max 0 (current_viewers r - 1))\<rparr>
            else r)"
    "session_row_step ?v =
      (\<lambda>r. if session_pk r = session_pk v
            then v\<lparr>vs_ended_at := Some (c 0),
                   watch_duration := duration_seconds fd (c 0 - vs_started_at v),
                   last_heartbeat := c 1\<rparr>
            else r)"
    "user_row_step ?v =
      (\<lambda>r. if user_pk r = user_id v
            then r\<lparr>total_watch_time := total_watch_time r + duration_seconds fd (c 0 - vs_started_at v),
                   monthly_data_used := monthly_data_used r + data_consumed v\<rparr>
            else r)"
    by (rule ext, simp add: stream_row_step_def session_row_step_def user_row_step_def
        end_instance_def)+
  show "end_view fd c rq d =
        (Inr (Status_ended (duration_seconds fd (c 0 - vs_started_at v)) (data_consumed v)),
         d\<lparr>streams :=
              map (\<lambda>r. if stream_pk r = stream_id v
                       then r\<lparr>current_viewers := max 0 (current_viewers r - 1),
                              peak_viewers :=
                                max (peak_viewers r) (max 0 (current_viewers r - 1))\<rparr>
                       else r) (streams d),
           sessions :=
              map (\<lambda>r. if session_pk r = session_pk v
                       then v\<lparr>vs_ended_at := Some (c 0),
                              watch_duration := duration_seconds fd (c 0 - vs_started_at v),
                              last_heartbeat := c 1\<rparr>
                       else r) (sessions d),
           users :=
              map (\<lambda>r. if user_pk r = user_id v
                       then r\<lparr>total_watch_time :=
                                total_watch_time r + duration_seconds fd (c 0 - vs_started_at v),
                              monthly_data_used := monthly_data_used r + data_consumed v\<rparr>
                       else r) (users d)\<rparr>)"
    using run [unfolded steps] by (simp add: end_view_def get fields)
next
  assume "session_get_object rq d = Inr v \<and> vs_ended_at v \<noteq> None"
  then show "end_view fd c rq d = (Inr (Status_ended (watch_duration v) (data_consumed v)), d)"
    by (simp add: end_view_def end_session_ended)
next
  assume a: "wf_db d \<and> end_view fd c rq d = (Inr resp, d')"
  then have dist: "distinct (map session_pk (sessions d))" by (simp add: wf_db_def)
  from a obtain w w' where w: "session_get_object rq d = Inr w"
    and e: "end_session fd (c 0) (c 1) w d = (Inr w', d')"
    and r: "resp = Status_ended (watch_duration w') (data_consumed w')"
    by (auto simp: end_view_def split: sum.splits prod.splits)
  show "end_view fd c' rq d' = (Inr resp, d')"
  proof (cases "vs_ended_at w = None")
    case False
    with e have "w' = w" "d' = d" by (simp_all add: end_session_ended)
    with w r False show ?thesis by (simp add: end_view_def end_session_ended)
  next
    case True
    let ?f = "\<lambda>r. if session_pk r = session_pk w then w' else r"
    let ?K = "\<lambda>v. session_pk v = session_request_pk rq"
    let ?U = "\<lambda>v. user_id v = user_pk (session_request_user rq)"
    from end_session_active_Inr [OF True e]
    have w': "w' = end_instance fd (c 0) (c 1) w" and s': "sessions d' = map ?f (sessions d)"
      by simp_all
    have keep: "session_pk w' = session_pk w" "user_id w' = user_id w" "vs_ended_at w' \<noteq> None"
      by (simp_all add: w' end_instance_def)
    have pkf: "session_pk (?f r) = session_pk r" for r by (simp add: keep)
    have "filter ?K (session_queryset rq d) = [w]"
      using w by (rule session_get_object_Inr)
    then have "w \<in> set (filter ?K (session_queryset rq d))" by simp
    then have pkw: "session_pk w = session_request_pk rq"
      and wq: "w \<in> set (session_queryset rq d)" by simp_all
    from wq have win: "w \<in> set (sessions d)"
      and Uw: "\<not> is_staff (session_request_user rq) \<Longrightarrow> ?U w"
      by (auto simp: session_queryset_def split: if_splits)
    have "filter ?K (sessions d) = [w]"
      using filter_key_distinct [OF dist win] by (simp add: pkw)
    moreover have "?K \<circ> ?f = ?K"
      by (auto simp: fun_eq_iff keep pkw)
    moreover have "?f w = w'" by simp
    ultimately have fK: "filter ?K (sessions d') = [w']"
      by (simp only: s' filter_map list.map)
    have "filter ?K (session_queryset rq d') = [w']"
    proof (cases "is_staff (session_request_user rq)")
      case True
      then show ?thesis by (simp add: session_queryset_def fK)
    next
      case False
      have "filter ?K (filter ?U (sessions d')) = filter ?U (filter ?K (sessions d'))"
        by (simp add: conj_commute)
      also have "\<dots> = [w']" using Uw [OF False] by (simp add: fK keep)
      finally show ?thesis using False by (simp add: session_queryset_def)
    qed
    then have "session_get_object rq d' = Inr w'" by (rule session_get_object_single)
    with keep(3) r show ?thesis by (simp add: end_view_def end_session_ended)
  qed
qed

lemma demo_end_first:
  "end_view demo_float demo_clock (demo_session_request 1) (demo_db ONLINE) =
     (Inr (Status_ended 9 7),
      \<lparr>streams = [(demo_stream ONLINE)\<lparr>current_viewers := 1, peak_viewers := 3\<rparr>],
       sessions = [(demo_session 1 1 (Some 10000000))
                     \<lparr>watch_duration := 9, last_heartbeat := 11500000\<rparr>,
                   demo_session 2 2 None, demo_session 3 1 (Some 5000000)],
       users = [(demo_user 1 BASIC)\<lparr>total_watch_time := 9, monthly_data_used := 7\<rparr>,
                demo_user 2 ULTRA],
       db_backend = demo_backend\<rparr>)"
  by (simp add: end_view_def view_defs demo_defs)

lemma demo_get_session:
  "session_get_object (demo_session_request 1) (demo_db ONLINE) = Inr (demo_session 1 1 None)"
  by (simp add: view_defs demo_defs)

theorem end_session_idempotent_witness:
  "wf_db (demo_db ONLINE) \<and>
   session_get_object (demo_session_request 1) (demo_db ONLINE) = Inr (demo_session 1 1 None) \<and>
   vs_ended_at (demo_session 1 1 None) = None \<and>
   integer_ok (db_backend (demo_db ONLINE))
     (duration_seconds demo_float (demo_clock 0 - vs_started_at (demo_session 1 1 None))) \<and>
   end_view demo_float demo_clock (demo_session_request 1) (demo_db ONLINE) =
     (Inr (Status_ended 9 7),
      \<lparr>streams = [(demo_stream ONLINE)\<lparr>current_viewers := 1, peak_viewers := 3\<rparr>],
       sessions = [(demo_session 1 1 (Some 10000000))
                     \<lparr>watch_duration := 9, last_heartbeat := 11500000\<rparr>,
                   demo_session 2 2 None, demo_session 3 1 (Some 5000000)],
       users = [(demo_user 1 BASIC)\<lparr>total_watch_time := 9, monthly_data_used := 7\<rparr>,
                demo_user 2 ULTRA],
       db_backend = demo_backend\<rparr>) \<and>
   end_view demo_float (\<lambda>n. 77000000) (demo_session_request 1)
     \<lparr>streams = [(demo_stream ONLINE)\<lparr>current_viewers := 1, peak_viewers := 3\<rparr>],
      sessions = [(demo_session 1 1 (Some 10000000))
                    \<lparr>watch_duration := 9, last_heartbeat := 11500000\<rparr>,
                  demo_session 2 2 None, demo_session 3 1 (Some 5000000)],
      users = [(demo_user 1 BASIC)\<lparr>total_watch_time := 9, monthly_data_used := 7\<rparr>,
               demo_user 2 ULTRA],
      db_backend = demo_backend\<rparr> =
     (Inr (Status_ended 9 7),
      \<lparr>streams = [(demo_stream ONLINE)\<lparr>current_viewers := 1, peak_viewers := 3\<rparr>],
       sessions = [(demo_session 1 1 (Some 10000000))
                     \<lparr>watch_duration := 9, last_heartbeat := 11500000\<rparr>,
                   demo_session 2 2 None, demo_session 3 1 (Some 5000000)],
       users = [(demo_user 1 BASIC)\<lparr>total_watch_time := 9, monthly_data_used := 7\<rparr>,
                demo_user 2 ULTRA],
       db_backend = demo_backend\<rparr>)"
proof -
  note [simp del] = One_nat_def
  let ?d' = "\<lparr>streams = [(demo_stream ONLINE)\<lparr>current_viewers := 1, peak_viewers := 3\<rparr>],
       sessions = [(demo_session 1 1 (Some 10000000))
                     \<lparr>watch_duration := 9, last_heartbeat := 11500000\<rparr>,
                   demo_session 2 2 None, demo_session 3 1 (Some 5000000)],
       users = [(demo_user 1 BASIC)\<lparr>total_watch_time := 9, monthly_data_used := 7\<rparr>,
                demo_user 2 ULTRA],
       db_backend = demo_backend\<rparr>"
  have fits: "vs_ended_at (demo_session 1 1 None) = None"
    "integer_ok (db_backend (demo_db ONLINE))
       (duration_seconds demo_float (demo_clock 0 - vs_started_at (demo_session 1 1 None)))"
    "\<forall>r \<in> set (streams (demo_db ONLINE)). stream_pk r = stream_id (demo_session 1 1 None) \<longrightarrow>
       integer_ok (db_backend (demo_db ONLINE)) (max 0 (current_viewers r - 1))"
    "\<forall>r \<in> set (users (demo_db ONLINE)). user_pk r = user_id (demo_session 1 1 None) \<longrightarrow>
       integer_ok (db_backend (demo_db ONLINE))
         (total_watch_time r + duration_seconds demo_float (demo_clock 0 - vs_started_at (demo_session 1 1 None))) \<and>
       big_integer_ok (db_backend (demo_db ONLINE))
         (monthly_data_used r + data_consumed (demo_session 1 1 None))"
    by (simp_all add: view_defs demo_defs)
  note inst = end_session_idempotent
      [where rq = "demo_session_request 1" and d = "demo_db ONLINE" and c = demo_clock
        and fd = demo_float and v = "demo_session 1 1 None" and resp = "Status_ended 9 7"
        and c' = "\<lambda>n. 77000000"
        and d' = "\<lparr>streams = [(demo_stream ONLINE)\<lparr>current_viewers := 1, peak_viewers := 3\<rparr>],
            sessions = [(demo_session 1 1 (Some 10000000))
                          \<lparr>watch_duration := 9, last_heartbeat := 11500000\<rparr>,
                        demo_session 2 2 None, demo_session 3 1 (Some 5000000)],
            users = [(demo_user 1 BASIC)\<lparr>total_watch_time := 9, monthly_data_used := 7\<rparr>,
                     demo_user 2 ULTRA],
            db_backend = demo_backend\<rparr>"]
  from inst demo_wf [of ONLINE] demo_get_session fits
  have first: "end_view demo_float demo_clock (demo_session_request 1) (demo_db ONLINE) =
        (Inr (Status_ended (duration_seconds demo_float (demo_clock 0 - vs_started_at (demo_session 1 1 None)))
                (data_consumed (demo_session 1 1 None))),
         (demo_db ONLINE)
           \<lparr>streams :=
              map (\<lambda>r. if stream_pk r = stream_id (demo_session 1 1 None)
                       then r\<lparr>current_viewers := max 0 (current_viewers r - 1),
                              peak_viewers :=
                                max (peak_viewers r) (max 0 (current_viewers r - 1))\<rparr>
                       else r) (streams (demo_db ONLINE)),
            sessions :=
              map (\<lambda>r. if session_pk r = session_pk (demo_session 1 1 None)
                       then (demo_session 1 1 None)\<lparr>vs_ended_at := Some (demo_clock 0),
                              watch_duration :=
                                duration_seconds demo_float (demo_clock 0 - vs_started_at (demo_session 1 1 None)),
                              last_heartbeat := demo_clock 1\<rparr>
                       else r) (sessions (demo_db ONLINE)),
            users :=
              map (\<lambda>r. if user_pk r = user_id (demo_session 1 1 None)
                       then r\<lparr>total_watch_time :=
                                total_watch_time r +
                                duration_seconds demo_float (demo_clock 0 - vs_started_at (demo_session 1 1 None)),
                              monthly_data_used :=
                                monthly_data_used r + data_consumed (demo_session 1 1 None)\<rparr>
                       else r) (users (demo_db ONLINE))\<rparr>)"
    by blast
  from inst demo_wf [of ONLINE] demo_end_first
  have second: "end_view demo_float (\<lambda>n. 77000000) (demo_session_request 1) ?d' =
                  (Inr (Status_ended 9 7), ?d')"
    by blast
  from demo_wf [of ONLINE] demo_get_session fits(1,2) demo_end_first second
  show ?thesis by (intro conjI)
qed

section \<open>Webhooks\<close>

lemma stream_by_key_Inr:
  "stream_by_key key d = Inr s \<Longrightarrow> s \<in> set (streams d) \<and> key = Some (stream_key s)"
proof -
  assume a: "stream_by_key key d = Inr s"
  then obtain k where k: "key = Some k" "filter (\<lambda>s. stream_key s = k) (streams d) = [s]"
    by (auto simp: stream_by_key_def dest: objects_get_Inr split: option.splits)
  from k(2) have "s \<in> set (filter (\<lambda>s. stream_key s = k) (streams d))" by simp
  with k(1) show ?thesis by simp
qed

lemma stream_by_key_unique:
  assumes "distinct (map stream_key (streams d))" "s \<in> set (streams d)"
  shows "stream_by_key (Some (stream_key s)) d = Inr s"
  using objects_get_unique [OF assms, of StreamDoesNotExist] by (simp add: stream_by_key_def)

lemma stream_by_key_unknown:
  assumes "key \<notin> Some ` stream_key ` set (streams d)"
  shows "stream_by_key key d = Inl StreamDoesNotExist"
proof (cases key)
  case None
  then show ?thesis by (simp add: stream_by_key_def)
next
  case (Some k)
  with assms have "k \<notin> set (map stream_key (streams d))" by auto
  then have "filter (\<lambda>s. stream_key s = k) (streams d) = []" by (rule filter_key_absent)
  with Some show ?thesis by (simp add: stream_by_key_def objects_get_empty)
qed

text \<open>
  C10, as the code has it.  \<open>stream.save()\<close> in \<open>stream_start\<close> writes \<open>updated_at\<close> as well,
  which is declared with \<open>auto_now=True\<close>.
\<close>

theorem stream_start_updated_at_counterexample:
  "fst (stream_start demo_clock (Some ''abc'') (demo_db OFFLINE)) = Inr Status_ok \<and>
   map updated_at (streams (demo_db OFFLINE)) = [0] \<and>
   map updated_at (streams (snd (stream_start demo_clock (Some ''abc'') (demo_db OFFLINE)))) =
     [11500000]"
  by (simp add: stream_start_def view_defs demo_defs)

text \<open>
  C10, amended.  Under the constraints of the schema, \<open>stream_start\<close> for the key of a stored
  stream answers ok and changes that stream's row in \<open>status\<close> (to ONLINE), \<open>started_at\<close> (to
  the time of the call), \<open>current_viewers\<close> (to 0) and \<open>updated_at\<close> (to the time of the
  save), and in nothing else: every other field of the row, every other stream, the
  sessions and the users are as before.
\<close>

theorem stream_start_frame:
  assumes "wf_db d" and "stream_by_key key d = Inr s"
  shows "stream_start c key d =
           (Inr Status_ok,
            d\<lparr>streams :=
               map (\<lambda>r. if r = s
                        then r\<lparr>status := ONLINE, started_at := Some (c 0),
                               current_viewers := 0, updated_at := c 1\<rparr>
                        else r) (streams d)\<rparr>)"
proof -
  from assms(2) have s: "s \<in> set (streams d)" by (simp add: stream_by_key_Inr)
  from assms(1) have dist: "distinct (map stream_pk (streams d))" by (simp add: wf_db_def)
  have m: "map (\<lambda>r. if stream_pk r = stream_pk s
                    then s\<lparr>status := ONLINE, started_at := Some (c 0),
                           current_viewers := 0, updated_at := c 1\<rparr>
                    else r) (streams d) =
           map (\<lambda>r. if r = s
                    then r\<lparr>status := ONLINE, started_at := Some (c 0),
                           current_viewers := 0, updated_at := c 1\<rparr>
                    else r) (streams d)"
    by (rule update_same_pk [OF dist s,
          of "\<lambda>r. r\<lparr>status := ONLINE, started_at := Some (c 0), current_viewers := 0,
                     updated_at := c 1\<rparr>"])
  have "stream_start c key d =
          (Inr Status_ok,
           save_stream (c 1)
             (s\<lparr>status := ONLINE, started_at := Some (c 0), current_viewers := 0\<rparr>) d)"
    by (simp add: stream_start_def assms(2))
  then show ?thesis
    by (simp add: save_stream_def m del: One_nat_def)
qed

theorem stream_start_frame_witness:
  "wf_db (demo_db OFFLINE) \<and>
   stream_by_key (Some ''abc'') (demo_db OFFLINE) = Inr (hd (streams (demo_db OFFLINE))) \<and>
   stream_start demo_clock (Some ''abc'') (demo_db OFFLINE) =
     (Inr Status_ok,
      (demo_db OFFLINE)
        \<lparr>streams :=
           [(demo_stream ONLINE)
              \<lparr>current_viewers := 0, peak_viewers := 3, started_at := Some 10000000,
               updated_at := 11500000\<rparr>]\<rparr>)"
proof -
  have key: "stream_by_key (Some ''abc'') (demo_db OFFLINE) = Inr (hd (streams (demo_db OFFLINE)))"
    by (simp add: view_defs demo_defs)
  from stream_start_frame [where c = demo_clock, OF demo_wf key] demo_wf [of OFFLINE] key
  show ?thesis by (simp add: demo_defs)
qed

lemma stream_row_step_pk: "stream_pk (stream_row_step v r) = stream_pk r"
  by (simp add: stream_row_step_def)

lemma user_row_step_pk: "user_pk (user_row_step v r) = user_pk r"
  by (simp add: user_row_step_def)

lemma session_row_step_pk: "session_pk (session_row_step v r) = session_pk r"
  by (simp add: session_row_step_def)

lemma ended_instances_keys:
  "map session_pk (ended_instances fd c k vs) = map session_pk vs"
  "map user_id (ended_instances fd c k vs) = map user_id vs"
  "map stream_id (ended_instances fd c k vs) = map stream_id vs"
  by (induction vs arbitrary: k; simp add: end_instance_def)+

lemma ended_instances_ended: "v' \<in> set (ended_instances fd c k vs) \<Longrightarrow> vs_ended_at v' \<noteq> None"
  by (induction vs arbitrary: k) (auto simp: end_instance_def)

lemma stream_row_step_idle:
  "current_viewers r = 0 \<Longrightarrow> current_viewers (stream_row_step v r) = 0"
  by (simp add: stream_row_step_def)

lemma end_all_rows:
  assumes "\<forall>v \<in> set vs. vs_ended_at v = None \<and>
              stream_id v \<in> set (map stream_pk (streams d)) \<and>
              user_id v \<in> set (map user_pk (users d))"
    and "distinct (map stream_pk (streams d))"
    and "distinct (map user_pk (users d))"
    and "integer_ok (db_backend d) 0"
    and "\<forall>r \<in> set (streams d). stream_pk r \<in> stream_id ` set vs \<longrightarrow> current_viewers r = 0"
    and "usage_fits (db_backend d) (users d) (ended_instances fd c k vs)"
  shows "end_all fd c k vs d =
           (Inr (),
            d\<lparr>streams := map (fold stream_row_step (ended_instances fd c k vs)) (streams d),
              sessions := map (fold session_row_step (ended_instances fd c k vs)) (sessions d),
              users := map (fold user_row_step (ended_instances fd c k vs)) (users d)\<rparr>)"
  using assms
proof (induction vs arbitrary: d k)
  case Nil
  then show ?case by simp
next
  case (Cons v vs)
  let ?v = "end_instance fd (c k) (c (k + 1)) v"
  let ?d = "d\<lparr>streams := map (stream_row_step ?v) (streams d),
              sessions := map (session_row_step ?v) (sessions d),
              users := map (user_row_step ?v) (users d)\<rparr>"
  from Cons.prems have v: "vs_ended_at v = None"
    "stream_id v \<in> set (map stream_pk (streams d))" "user_id v \<in> set (map user_pk (users d))"
    by simp_all
  from Cons.prems(6) have fit: "integer_ok (db_backend d) (watch_duration ?v)"
    "\<forall>r \<in> set (users d). user_pk r = user_id v \<longrightarrow>
        integer_ok (db_backend d) (total_watch_time r + watch_duration ?v) \<and>
        big_integer_ok (db_backend d) (monthly_data_used r + data_consumed ?v)"
    "usage_fits (db_backend d) (map (user_row_step ?v) (users d)) (ended_instances fd c (k + 2) vs)"
    by (simp_all add: list_all_iff end_instance_def)
  have idle: "current_viewers r = 0" if "r \<in> set (streams d)" "stream_pk r = stream_id v" for r
    using Cons.prems(5) that by simp
  have fit_c: "\<forall>r \<in> set (streams d). stream_pk r = stream_id v \<longrightarrow>
                 integer_ok (db_backend d) (max 0 (current_viewers r - 1))"
    using Cons.prems(4) by (auto simp: idle)
  have step: "end_session fd (c k) (c (k + 1)) v d = (Inr ?v, ?d)"
    by (rule end_session_rows [OF v(1) Cons.prems(2) v(2) Cons.prems(3) v(3) fit(1) fit_c fit(2)])
  have pks: "map stream_pk (streams ?d) = map stream_pk (streams d)"
    "map user_pk (users ?d) = map user_pk (users d)"
    by (simp_all add: comp_def stream_row_step_pk user_row_step_pk)
  have "end_all fd c (k + 2) vs ?d =
          (Inr (),
           ?d\<lparr>streams := map (fold stream_row_step (ended_instances fd c (k + 2) vs)) (streams ?d),
              sessions := map (fold session_row_step (ended_instances fd c (k + 2) vs)) (sessions ?d),
              users := map (fold user_row_step (ended_instances fd c (k + 2) vs)) (users ?d)\<rparr>)"
  proof (rule Cons.IH)
    show "\<forall>v\<in>set vs. vs_ended_at v = None \<and> stream_id v \<in> set (map stream_pk (streams ?d)) \<and>
            user_id v \<in> set (map user_pk (users ?d))"
      using Cons.prems(1) unfolding pks by simp
    show "distinct (map stream_pk (streams ?d))" using Cons.prems(2) unfolding pks .
    show "distinct (map user_pk (users ?d))" using Cons.prems(3) unfolding pks .
    show "integer_ok (db_backend ?d) 0" using Cons.prems(4) by simp
    show "\<forall>r \<in> set (streams ?d). stream_pk r \<in> stream_id ` set vs \<longrightarrow> current_viewers r = 0"
    proof (intro ballI impI)
      fix r assume r: "r \<in> set (streams ?d)" "stream_pk r \<in> stream_id ` set vs"
      then obtain r0 where r0: "r0 \<in> set (streams d)" "r = stream_row_step ?v r0" by auto
      with r(2) have "stream_pk r0 \<in> stream_id ` set (v # vs)"
        by (simp add: stream_row_step_pk)
      with Cons.prems(5) r0(1) have "current_viewers r0 = 0" by blast
      with r0(2) show "current_viewers r = 0" by (simp add: stream_row_step_idle)
    qed
    show "usage_fits (db_backend ?d) (users ?d) (ended_instances fd c (k + 2) vs)"
      using fit(3) by simp
  qed
  moreover have "end_all fd c k (v # vs) d = end_all fd c (k + 2) vs ?d"
    by (simp only: end_all.simps step prod.case sum.case)
  moreover have
    "?d\<lparr>streams := map (fold stream_row_step (ended_instances fd c (k + 2) vs)) (streams ?d),
        sessions := map (fold session_row_step (ended_instances fd c (k + 2) vs)) (sessions ?d),
        users := map (fold user_row_step (ended_instances fd c (k + 2) vs)) (users ?d)\<rparr> =
     d\<lparr>streams := map (fold stream_row_step (ended_instances fd c k (v # vs))) (streams d),
       sessions := map (fold session_row_step (ended_instances fd c k (v # vs))) (sessions d),
       users := map (fold user_row_step (ended_instances fd c k (v # vs))) (users d)\<rparr>"
    by (simp add: comp_def)
  ultimately show ?case by (simp only:)
qed

lemma fold_stream_row_step_keep:
  "stream_pk (fold stream_row_step vs r) = stream_pk r"
  "stream_key (fold stream_row_step vs r) = stream_key r"
  "status (fold stream_row_step vs r) = status r"
  "ended_at (fold stream_row_step vs r) = ended_at r"
  by (induction vs arbitrary: r; simp add: stream_row_step_def)+

lemma fold_stream_row_step_zero:
  "current_viewers r = 0 \<Longrightarrow> current_viewers (fold stream_row_step vs r) = 0"
  by (induction vs arbitrary: r) (simp_all add: stream_row_step_def)

lemma fold_user_row_step_pk: "user_pk (fold user_row_step vs r) = user_pk r"
  by (induction vs arbitrary: r) (simp_all add: user_row_step_def)

lemma user_row_step_hit:
  "user_pk r = user_id v \<Longrightarrow>
   user_row_step v r =
     r\<lparr>total_watch_time := total_watch_time r + watch_duration v,
       monthly_data_used := monthly_data_used r + data_consumed v\<rparr>"
  by (simp add: user_row_step_def)

lemma user_row_step_miss: "user_pk r \<noteq> user_id v \<Longrightarrow> user_row_step v r = r"
  by (simp add: user_row_step_def)

lemma fold_user_row_step:
  "fold user_row_step vs r =
     r\<lparr>total_watch_time :=
         total_watch_time r + sum_list (map watch_duration (filter (\<lambda>v. user_id v = user_pk r) vs)),
       monthly_data_used :=
         monthly_data_used r + sum_list (map data_consumed (filter (\<lambda>v. user_id v = user_pk r) vs))\<rparr>"
proof (induction vs arbitrary: r)
  case Nil
  then show ?case by simp
next
  case (Cons v vs)
  have "fold user_row_step (v # vs) r = fold user_row_step vs (user_row_step v r)" by simp
  also note Cons.IH [of "user_row_step v r"]
  finally show ?case
    by (cases "user_pk r = user_id v") (simp_all add: user_row_step_hit user_row_step_miss)
qed

lemma fold_session_row_step_pk: "session_pk (fold session_row_step vs r) = session_pk r"
  by (induction vs arbitrary: r) (simp_all add: session_row_step_def)

lemma fold_session_row_step_other:
  "session_pk r \<notin> set (map session_pk vs) \<Longrightarrow> fold session_row_step vs r = r"
  by (induction vs arbitrary: r) (auto simp: session_row_step_def)

lemma fold_session_row_step_hit:
  "distinct (map session_pk vs) \<Longrightarrow> w \<in> set vs \<Longrightarrow> session_pk w = session_pk r \<Longrightarrow>
   fold session_row_step vs r = w"
proof (induction vs arbitrary: r)
  case Nil
  then show ?case by simp
next
  case (Cons a vs)
  show ?case
  proof (cases "w = a")
    case True
    with Cons.prems have "session_pk a \<notin> set (map session_pk vs)" "session_row_step a r = a"
      by (simp_all add: session_row_step_def)
    then show ?thesis using True by (simp add: fold_session_row_step_other)
  next
    case False
    with Cons.prems have w: "w \<in> set vs" "distinct (map session_pk vs)" by simp_all
    from Cons.prems(1) w(1) have "session_pk a \<noteq> session_pk w" by force
    with Cons.prems have "session_row_step a r = r" by (simp add: session_row_step_def)
    with Cons.IH [OF w(2) w(1) Cons.prems(3)] show ?thesis by simp
  qed
qed

lemma map_fold_session_row_step:
  assumes "distinct (map session_pk vs)" "map session_pk ws = map session_pk vs"
  shows "map (fold session_row_step ws) vs = ws"
proof (rule nth_equalityI)
  from assms(2) have len: "length ws = length vs" by (metis length_map)
  then show "length (map (fold session_row_step ws) vs) = length ws" by simp
  fix i assume "i < length (map (fold session_row_step ws) vs)"
  then have i: "i < length vs" by simp
  with len have "ws ! i \<in> set ws" by simp
  moreover have "session_pk (ws ! i) = session_pk (vs ! i)"
    using i len assms(2) by (metis nth_map)
  moreover have "distinct (map session_pk ws)" using assms by simp
  ultimately have "fold session_row_step ws (vs ! i) = ws ! i"
    by (rule fold_session_row_step_hit [rotated])
  with i show "map (fold session_row_step ws) vs ! i = ws ! i" by simp
qed

lemma stream_stop_known:
  assumes wf: "wf_db d" and s: "s \<in> set (streams d)"
    and zero: "integer_ok (db_backend d) 0"
    and fits: "usage_fits (db_backend d) (users d) (ended_instances fd c 2 (active_sessions s d))"
  defines "act \<equiv> active_sessions s d"
  defines "A \<equiv> session_pk ` set (active_sessions s d)"
  shows "\<exists>d' s'. stream_stop fd c (Some (stream_key s)) d = (Inr Status_ok, d') \<and>
           stream_by_key (Some (stream_key s)) d' = Inr s' \<and> stream_pk s' = stream_pk s \<and>
           status s' = OFFLINE \<and> ended_at s' = Some (c 0) \<and> current_viewers s' = 0 \<and>
           active_sessions s d' = [] \<and>
           filter (\<lambda>v. session_pk v \<in> A) (sessions d') = ended_instances fd c 2 act \<and>
           filter (\<lambda>v. session_pk v \<notin> A) (sessions d') =
             filter (\<lambda>v. session_pk v \<notin> A) (sessions d) \<and>
           users d' =
             map (\<lambda>u. u\<lparr>total_watch_time := total_watch_time u +
                          sum_list (map watch_duration
                            (filter (\<lambda>v. session_pk v \<in> A \<and> user_id v = user_pk u) (sessions d'))),
                        monthly_data_used := monthly_data_used u +
                          sum_list (map data_consumed
                            (filter (\<lambda>v. session_pk v \<in> A \<and> user_id v = user_pk u) (sessions d')))\<rparr>)
               (users d)"
proof -
  note [simp del] = One_nat_def
  from wf have dk: "distinct (map stream_key (streams d))"
    and dp: "distinct (map stream_pk (streams d))"
    and dv: "distinct (map session_pk (sessions d))"
    and du: "distinct (map user_pk (users d))"
    and fk: "\<forall>v \<in> set (sessions d). stream_id v \<in> set (map stream_pk (streams d)) \<and>
               user_id v \<in> set (map user_pk (users d))"
    by (simp_all add: wf_db_def list_all_iff)
  let ?s0 = "s\<lparr>status := OFFLINE, ended_at := Some (c 0), current_viewers := 0\<rparr>"
  let ?s1 = "s\<lparr>status := OFFLINE, ended_at := Some (c 0), current_viewers := 0, updated_at := c 1\<rparr>"
  let ?g = "\<lambda>r. if r = s
                then r\<lparr>status := OFFLINE, ended_at := Some (c 0), current_viewers := 0,
                       updated_at := c 1\<rparr>
                else r"
  let ?d1 = "save_stream (c 1) ?s0 d"
  have "map (\<lambda>r. if stream_pk r = stream_pk s then ?s1 else r) (streams d) = map ?g (streams d)"
    by (rule update_same_pk [OF dp s,
          of "\<lambda>r. r\<lparr>status := OFFLINE, ended_at := Some (c 0), current_viewers := 0,
                     updated_at := c 1\<rparr>"])
  then have d1: "streams ?d1 = map ?g (streams d)" "sessions ?d1 = sessions d"
    "users ?d1 = users d"
    by (simp_all add: save_stream_def)
  have bk: "db_backend ?d1 = db_backend d" by (simp add: save_stream_def)
  have g_keep: "stream_pk (?g r) = stream_pk r" "stream_key (?g r) = stream_key r" for r
    by simp_all
  have pks1: "map stream_pk (streams ?d1) = map stream_pk (streams d)"
    and keys1: "map stream_key (streams ?d1) = map stream_key (streams d)"
    unfolding d1 by (simp_all only: map_map comp_def g_keep)
  have s1_in: "?s1 \<in> set (streams ?d1)"
  proof -
    have "?g s \<in> ?g ` set (streams d)" using s by (rule imageI)
    then show ?thesis by (simp add: d1)
  qed
  have act1: "active_sessions ?s0 ?d1 = act"
    by (simp add: active_sessions_def act_def d1)
  let ?vs = "ended_instances fd c 2 act"
  let ?F = "fold stream_row_step ?vs"
  let ?H = "fold session_row_step ?vs"
  let ?U = "fold user_row_step ?vs"
  define d' where
    "d' = ?d1\<lparr>streams := map ?F (streams ?d1), sessions := map ?H (sessions ?d1),
               users := map ?U (users ?d1)\<rparr>"
  have tabs: "streams d' = map ?F (streams ?d1)" "sessions d' = map ?H (sessions d)"
    "users d' = map ?U (users d)"
    by (simp_all add: d'_def d1(2) d1(3))
  have bk': "db_backend d' = db_backend d" by (simp add: d'_def bk)
  have loop: "end_all fd c 2 act ?d1 = (Inr (), d')"
    unfolding d'_def
  proof (rule end_all_rows)
    show "\<forall>v\<in>set act. vs_ended_at v = None \<and> stream_id v \<in> set (map stream_pk (streams ?d1)) \<and>
            user_id v \<in> set (map user_pk (users ?d1))"
      unfolding pks1 d1(2) d1(3) using fk s by (auto simp: act_def active_sessions_def)
    show "distinct (map stream_pk (streams ?d1))" unfolding pks1 by (rule dp)
    show "distinct (map user_pk (users ?d1))" unfolding d1(3) by (rule du)
    show "integer_ok (db_backend ?d1) 0" unfolding bk by (rule zero)
    show "usage_fits (db_backend ?d1) (users ?d1) (ended_instances fd c 2 act)"
      unfolding bk d1(3) act_def by (rule fits)
    show "\<forall>r \<in> set (streams ?d1). stream_pk r \<in> stream_id ` set act \<longrightarrow> current_viewers r = 0"
    proof (intro ballI impI)
      fix r assume r: "r \<in> set (streams ?d1)" "stream_pk r \<in> stream_id ` set act"
      from r(2) have pk: "stream_pk r = stream_pk s"
        by (auto simp: act_def active_sessions_def)
      from r(1) obtain r0 where r0: "r0 \<in> set (streams d)" "r = ?g r0"
        unfolding d1(1) by auto
      with pk have "stream_pk r0 = stream_pk s" by (simp add: g_keep)
      with dp s r0(1) have "r0 = s" by (auto dest: same_key_same_row)
      with r0(2) show "current_viewers r = 0" by simp
    qed
  qed
  have by_key: "stream_by_key (Some (stream_key s)) d = Inr s"
    by (rule stream_by_key_unique [OF dk s])
  have stop: "stream_stop fd c (Some (stream_key s)) d = (Inr Status_ok, d')"
    by (simp only: stream_stop_def by_key sum.case Let_def act1 loop prod.case)
  define s' where "s' = ?F ?s1"
  have s'_in: "s' \<in> set (streams d')" using s1_in by (simp add: tabs s'_def)
  have "map stream_key (streams d') = map stream_key (streams ?d1)"
    by (simp add: tabs comp_def fold_stream_row_step_keep)
  then have keys': "map stream_key (streams d') = map stream_key (streams d)"
    by (simp only: keys1)
  have s'_fields: "stream_pk s' = stream_pk s" "stream_key s' = stream_key s"
    "status s' = OFFLINE" "ended_at s' = Some (c 0)" "current_viewers s' = 0"
    by (simp_all add: s'_def fold_stream_row_step_keep fold_stream_row_step_zero)
  have "stream_by_key (Some (stream_key s')) d' = Inr s'"
  proof (rule stream_by_key_unique)
    show "distinct (map stream_key (streams d'))" unfolding keys' by (rule dk)
    show "s' \<in> set (streams d')" by (rule s'_in)
  qed
  then have by_key': "stream_by_key (Some (stream_key s)) d' = Inr s'"
    by (simp only: s'_fields)
  have dact: "distinct (map session_pk act)"
    unfolding act_def active_sessions_def using dv by (rule distinct_map_filter)
  have vs_keys: "map session_pk ?vs = map session_pk act" by (rule ended_instances_keys)
  have A_vs: "A = set (map session_pk ?vs)" unfolding vs_keys by (simp add: A_def act_def)
  have H_pk: "session_pk (?H r) = session_pk r" for r by (rule fold_session_row_step_pk)
  have in_A: "filter (\<lambda>r. session_pk r \<in> A) (sessions d) = act"
    unfolding A_def act_def active_sessions_def by (rule filter_by_keys [OF dv])
  have hit: "filter (\<lambda>v. session_pk v \<in> A) (sessions d') = ?vs"
  proof -
    have "filter (\<lambda>v. session_pk v \<in> A) (map ?H (sessions d)) =
          map ?H (filter (\<lambda>r. session_pk r \<in> A) (sessions d))"
      by (simp only: filter_map comp_def H_pk)
    also have "\<dots> = ?vs"
      unfolding in_A by (rule map_fold_session_row_step [OF dact vs_keys])
    finally show ?thesis by (simp only: tabs)
  qed
  have miss: "filter (\<lambda>v. session_pk v \<notin> A) (sessions d') =
              filter (\<lambda>v. session_pk v \<notin> A) (sessions d)"
  proof -
    have "filter (\<lambda>v. session_pk v \<notin> A) (map ?H (sessions d)) =
          map ?H (filter (\<lambda>r. session_pk r \<notin> A) (sessions d))"
      by (simp only: filter_map comp_def H_pk)
    also have "\<dots> = filter (\<lambda>r. session_pk r \<notin> A) (sessions d)"
      by (rule map_idI) (simp add: A_vs fold_session_row_step_other)
    finally show ?thesis by (simp only: tabs)
  qed
  have no_active: "active_sessions s d' = []"
  proof -
    have "\<not> (stream_id v = stream_pk s \<and> vs_ended_at v = None)" if "v \<in> set (sessions d')" for v
    proof (cases "session_pk v \<in> A")
      case True
      with that have "v \<in> set (filter (\<lambda>v. session_pk v \<in> A) (sessions d'))" by simp
      then have "v \<in> set ?vs" by (simp only: hit)
      then show ?thesis by (auto dest: ended_instances_ended)
    next
      case False
      with that have "v \<in> set (filter (\<lambda>v. session_pk v \<notin> A) (sessions d'))" by simp
      then have "v \<in> set (filter (\<lambda>v. session_pk v \<notin> A) (sessions d))" by (simp only: miss)
      with False show ?thesis by (auto simp: A_def active_sessions_def)
    qed
    then show ?thesis by (simp add: active_sessions_def filter_empty_conv)
  qed
  have users': "users d' =
      map (\<lambda>u. u\<lparr>total_watch_time := total_watch_time u +
                   sum_list (map watch_duration
                     (filter (\<lambda>v. session_pk v \<in> A \<and> user_id v = user_pk u) (sessions d'))),
                 monthly_data_used := monthly_data_used u +
                   sum_list (map data_consumed
                     (filter (\<lambda>v. session_pk v \<in> A \<and> user_id v = user_pk u) (sessions d')))\<rparr>)
        (users d)"
  proof -
    have eq: "filter (\<lambda>v. session_pk v \<in> A \<and> user_id v = user_pk u) (sessions d') =
          filter (\<lambda>v. user_id v = user_pk u) ?vs" for u :: user
    proof -
      have "filter (\<lambda>v. session_pk v \<in> A \<and> user_id v = user_pk u) (sessions d') =
            filter (\<lambda>v. user_id v = user_pk u) (filter (\<lambda>v. session_pk v \<in> A) (sessions d'))"
        by (simp only: filter_filter)
      then show ?thesis by (simp only: hit)
    qed
    show ?thesis
      unfolding tabs(3) eq by (rule map_cong [OF refl]) (rule fold_user_row_step)
  qed
  show ?thesis
  proof (intro exI conjI)
    show "stream_stop fd c (Some (stream_key s)) d = (Inr Status_ok, d')" by (rule stop)
    show "stream_by_key (Some (stream_key s)) d' = Inr s'" by (rule by_key')
    show "stream_pk s' = stream_pk s" "status s' = OFFLINE" "ended_at s' = Some (c 0)"
      "current_viewers s' = 0" by (rule s'_fields)+
    show "active_sessions s d' = []" by (rule no_active)
    show "filter (\<lambda>v. session_pk v \<in> A) (sessions d') = ended_instances fd c 2 act" by (rule hit)
    show "filter (\<lambda>v. session_pk v \<notin> A) (sessions d') =
          filter (\<lambda>v. session_pk v \<notin> A) (sessions d)" by (rule miss)
    show "users d' =
      map (\<lambda>u. u\<lparr>total_watch_time := total_watch_time u +
                   sum_list (map watch_duration
                     (filter (\<lambda>v. session_pk v \<in> A \<and> user_id v = user_pk u) (sessions d'))),
                 monthly_data_used := monthly_data_used u +
                   sum_list (map data_consumed
                     (filter (\<lambda>v. session_pk v \<in> A \<and> user_id v = user_pk u) (sessions d')))\<rparr>)
        (users d)" by (rule users')
  qed
qed

lemma stream_stop_idle:
  assumes wf: "wf_db d" and s: "s \<in> set (streams d)" and idle: "active_sessions s d = []"
  shows "stream_stop fd c (Some (stream_key s)) d =
           (Inr Status_ok,
            d\<lparr>streams :=
               map (\<lambda>r. if r = s
                        then r\<lparr>status := OFFLINE, ended_at := Some (c 0),
                               current_viewers := 0, updated_at := c 1\<rparr>
                        else r) (streams d)\<rparr>)"
proof -
  note [simp del] = One_nat_def
  from wf have dk: "distinct (map stream_key (streams d))"
    and dp: "distinct (map stream_pk (streams d))"
    by (simp_all add: wf_db_def)
  let ?s0 = "s\<lparr>status := OFFLINE, ended_at := Some (c 0), current_viewers := 0\<rparr>"
  let ?d1 = "save_stream (c 1) ?s0 d"
  have m: "map (\<lambda>r. if stream_pk r = stream_pk s
                    then s\<lparr>status := OFFLINE, ended_at := Some (c 0),
                           current_viewers := 0, updated_at := c 1\<rparr>
                    else r) (streams d) =
           map (\<lambda>r. if r = s
                    then r\<lparr>status := OFFLINE, ended_at := Some (c 0),
                           current_viewers := 0, updated_at := c 1\<rparr>
                    else r) (streams d)"
    by (rule update_same_pk [OF dp s,
          of "\<lambda>r. r\<lparr>status := OFFLINE, ended_at := Some (c 0), current_viewers := 0,
                     updated_at := c 1\<rparr>"])
  have act1: "active_sessions ?s0 ?d1 = []"
    using idle by (simp add: active_sessions_def save_stream_def)
  have by_key: "stream_by_key (Some (stream_key s)) d = Inr s"
    by (rule stream_by_key_unique [OF dk s])
  have "stream_stop fd c (Some (stream_key s)) d = (Inr Status_ok, ?d1)"
    by (simp only: stream_stop_def by_key sum.case Let_def act1 end_all.simps prod.case)
  then show ?thesis by (simp add: save_stream_def m)
qed

text \<open>
  C7.  Under the constraints of the schema, and as long as every number that the loop
  stores is inside its column, \<open>stream_stop\<close> for the key of a stored stream answers ok,
  whatever the status of the stream; afterwards the stream found under that key is OFFLINE
  with \<open>ended_at\<close> set to the time of the call and no current viewers, and no session of the
  stream is active; the sessions that were active are stored as the loop ended them
  (\<open>vs_ended_at\<close> and \<open>watch_duration\<close> set), every other session is as before; each user's
  \<open>total_watch_time\<close> has grown by the sum of the \<open>watch_duration\<close> of that user's sessions just
  ended, and \<open>monthly_data_used\<close> by the sum of their \<open>data_consumed\<close>.  With no active session
  the answer is ok as well, and only the row of the stream changes.  For a key that no
  stream has, or no key, the answer is \<open>NotFound\<close>, status 404, and nothing changes.
\<close>

theorem stream_stop_effect:
  assumes "wf_db d"
  shows
    "(s \<in> set (streams d) \<and> integer_ok (db_backend d) 0 \<and>
      usage_fits (db_backend d) (users d) (ended_instances fd c 2 (active_sessions s d)) \<longrightarrow>
        (\<exists>d' s'. stream_stop fd c (Some (stream_key s)) d = (Inr Status_ok, d') \<and>
           stream_by_key (Some (stream_key s)) d' = Inr s' \<and> stream_pk s' = stream_pk s \<and>
           status s' = OFFLINE \<and> ended_at s' = Some (c 0) \<and> current_viewers s' = 0 \<and>
           active_sessions s d' = [] \<and>
           filter (\<lambda>v. session_pk v \<in> session_pk ` set (active_sessions s d)) (sessions d') =
             ended_instances fd c 2 (active_sessions s d) \<and>
           filter (\<lambda>v. session_pk v \<notin> session_pk ` set (active_sessions s d)) (sessions d') =
             filter (\<lambda>v. session_pk v \<notin> session_pk ` set (active_sessions s d)) (sessions d) \<and>
           users d' =
             map (\<lambda>u. u\<lparr>total_watch_time := total_watch_time u +
                          sum_list (map watch_duration
                            (filter (\<lambda>v. session_pk v \<in> session_pk ` set (active_sessions s d) \<and>
                                         user_id v = user_pk u) (sessions d'))),
                        monthly_data_used := monthly_data_used u +
                          sum_list (map data_consumed
                            (filter (\<lambda>v. session_pk v \<in> session_pk ` set (active_sessions s d) \<and>
                                         user_id v = user_pk u) (sessions d')))\<rparr>)
               (users d))) \<and>
     (s \<in> set (streams d) \<and> active_sessions s d = [] \<longrightarrow>
        stream_stop fd c (Some (stream_key s)) d =
          (Inr Status_ok,
           d\<lparr>streams :=
              map (\<lambda>r. if r = s
                       then r\<lparr>status := OFFLINE, ended_at := Some (c 0),
                              current_viewers := 0, updated_at := c 1\<rparr>
                       else r) (streams d)\<rparr>)) \<and>
     (key \<notin> Some ` stream_key ` set (streams d) \<longrightarrow>
        stream_stop fd c key d = (Inl NotFound, d) \<and> status_code NotFound = 404)"
proof (intro conjI impI)
  assume a: "s \<in> set (streams d) \<and> integer_ok (db_backend d) 0 \<and>
      usage_fits (db_backend d) (users d) (ended_instances fd c 2 (active_sessions s d))"
  then have s: "s \<in> set (streams d)" and zero: "integer_ok (db_backend d) 0"
    and fits: "usage_fits (db_backend d) (users d) (ended_instances fd c 2 (active_sessions s d))"
    by simp_all
  show "\<exists>d' s'. stream_stop fd c (Some (stream_key s)) d = (Inr Status_ok, d') \<and>
           stream_by_key (Some (stream_key s)) d' = Inr s' \<and> stream_pk s' = stream_pk s \<and>
           status s' = OFFLINE \<and> ended_at s' = Some (c 0) \<and> current_viewers s' = 0 \<and>
           active_sessions s d' = [] \<and>
           filter (\<lambda>v. session_pk v \<in> session_pk ` set (active_sessions s d)) (sessions d') =
             ended_instances fd c 2 (active_sessions s d) \<and>
           filter (\<lambda>v. session_pk v \<notin> session_pk ` set (active_sessions s d)) (sessions d') =
             filter (\<lambda>v. session_pk v \<notin> session_pk ` set (active_sessions s d)) (sessions d) \<and>
           users d' =
             map (\<lambda>u. u\<lparr>total_watch_time := total_watch_time u +
                          sum_list (map watch_duration
                            (filter (\<lambda>v. session_pk v \<in> session_pk ` set (active_sessions s d) \<and>
                                         user_id v = user_pk u) (sessions d'))),
                        monthly_data_used := monthly_data_used u +
                          sum_list (map data_consumed
                            (filter (\<lambda>v. session_pk v \<in> session_pk ` set (active_sessions s d) \<and>
                                         user_id v = user_pk u) (sessions d')))\<rparr>)
               (users d)"
    by (rule stream_stop_known [OF assms s zero fits])
next
  assume "s \<in> set (streams d) \<and> active_sessions s d = []"
  then show "stream_stop fd c (Some (stream_key s)) d =
          (Inr Status_ok,
           d\<lparr>streams :=
              map (\<lambda>r. if r = s
                       then r\<lparr>status := OFFLINE, ended_at := Some (c 0),
                              current_viewers := 0, updated_at := c 1\<rparr>
                       else r) (streams d)\<rparr>)"
    using stream_stop_idle [OF assms] by blast
next
  assume "key \<notin> Some ` stream_key ` set (streams d)"
  then show "stream_stop fd c key d = (Inl NotFound, d)"
    by (simp add: stream_stop_def stream_by_key_unknown)
next
  show "status_code NotFound = 404" by simp
qed

lemma demo_stop:
  "stream_stop demo_float demo_clock (Some ''abc'') (demo_db ONLINE) =
     (Inr Status_ok,
      \<lparr>streams = [(demo_stream OFFLINE)\<lparr>current_viewers := 0, peak_viewers := 3,
                    ended_at := Some 10000000, updated_at := 11500000\<rparr>],
       sessions = [(demo_session 1 1 (Some 13000000))\<lparr>watch_duration := 12, last_heartbeat := 14500000\<rparr>,
                   (demo_session 2 2 (Some 16000000))\<lparr>watch_duration := 15, last_heartbeat := 17500000\<rparr>,
                   demo_session 3 1 (Some 5000000)],
       users = [(demo_user 1 BASIC)\<lparr>total_watch_time := 12, monthly_data_used := 7\<rparr>,
                (demo_user 2 ULTRA)\<lparr>total_watch_time := 15, monthly_data_used := 7\<rparr>],
       db_backend = demo_backend\<rparr>)"
  by (simp add: stream_stop_def active_sessions_def view_defs demo_defs)

lemma demo_stop_idle:
  "active_sessions (hd (streams (demo_db ONLINE)))
     ((demo_db ONLINE)\<lparr>sessions := [demo_session 3 1 (Some 5000000)]\<rparr>) = []"
  by (simp add: active_sessions_def demo_defs)

lemma demo_fits:
  "integer_ok (db_backend (demo_db ONLINE)) 0"
  "usage_fits (db_backend (demo_db ONLINE)) (users (demo_db ONLINE))
     (ended_instances demo_float demo_clock 2 (active_sessions (hd (streams (demo_db ONLINE))) (demo_db ONLINE)))"
  by (simp_all add: active_sessions_def user_row_step_def numeral_2_eq_2 view_defs demo_defs)

theorem stream_stop_effect_witness:
  "wf_db (demo_db ONLINE) \<and> hd (streams (demo_db ONLINE)) \<in> set (streams (demo_db ONLINE)) \<and>
   stream_key (hd (streams (demo_db ONLINE))) = ''abc'' \<and>
   integer_ok (db_backend (demo_db ONLINE)) 0 \<and>
   usage_fits (db_backend (demo_db ONLINE)) (users (demo_db ONLINE))
     (ended_instances demo_float demo_clock 2
        (active_sessions (hd (streams (demo_db ONLINE))) (demo_db ONLINE))) \<and>
   fst (stream_stop demo_float demo_clock (Some ''abc'') (demo_db ONLINE)) = Inr Status_ok \<and>
   map status (streams (snd (stream_stop demo_float demo_clock (Some ''abc'') (demo_db ONLINE)))) = [OFFLINE] \<and>
   map current_viewers (streams (snd (stream_stop demo_float demo_clock (Some ''abc'') (demo_db ONLINE)))) = [0] \<and>
   map vs_ended_at (sessions (snd (stream_stop demo_float demo_clock (Some ''abc'') (demo_db ONLINE)))) =
     [Some 13000000, Some 16000000, Some 5000000] \<and>
   map watch_duration (sessions (snd (stream_stop demo_float demo_clock (Some ''abc'') (demo_db ONLINE)))) =
     [12, 15, 0] \<and>
   map total_watch_time (users (snd (stream_stop demo_float demo_clock (Some ''abc'') (demo_db ONLINE)))) =
     [12, 15] \<and>
   Some ''zzz'' \<notin> Some ` stream_key ` set (streams (demo_db ONLINE)) \<and>
   stream_stop demo_float demo_clock (Some ''zzz'') (demo_db ONLINE) = (Inl NotFound, demo_db ONLINE)"
proof -
  have known: "hd (streams (demo_db ONLINE)) \<in> set (streams (demo_db ONLINE))"
    "stream_key (hd (streams (demo_db ONLINE))) = ''abc''"
    and unknown: "Some ''zzz'' \<notin> Some ` stream_key ` set (streams (demo_db ONLINE))"
    by (simp_all add: demo_defs)
  note inst = stream_stop_effect
      [where d = "demo_db ONLINE" and s = "hd (streams (demo_db ONLINE))" and c = demo_clock
        and fd = demo_float and key = "Some ''zzz''", OF demo_wf]
  from inst known(1) demo_fits obtain d' where
    ok: "stream_stop demo_float demo_clock (Some (stream_key (hd (streams (demo_db ONLINE))))) (demo_db ONLINE) =
           (Inr Status_ok, d')"
    by blast
  then have ok': "fst (stream_stop demo_float demo_clock (Some ''abc'') (demo_db ONLINE)) = Inr Status_ok"
    by (simp add: known(2))
  have run:
    "map status (streams (snd (stream_stop demo_float demo_clock (Some ''abc'') (demo_db ONLINE)))) = [OFFLINE]"
    "map current_viewers (streams (snd (stream_stop demo_float demo_clock (Some ''abc'') (demo_db ONLINE)))) = [0]"
    "map vs_ended_at (sessions (snd (stream_stop demo_float demo_clock (Some ''abc'') (demo_db ONLINE)))) =
       [Some 13000000, Some 16000000, Some 5000000]"
    "map watch_duration (sessions (snd (stream_stop demo_float demo_clock (Some ''abc'') (demo_db ONLINE)))) =
       [12, 15, 0]"
    "map total_watch_time (users (snd (stream_stop demo_float demo_clock (Some ''abc'') (demo_db ONLINE)))) =
       [12, 15]"
    by (simp_all add: demo_stop) (simp_all add: demo_defs)
  from inst unknown
  have nf: "stream_stop demo_float demo_clock (Some ''zzz'') (demo_db ONLINE) = (Inl NotFound, demo_db ONLINE)"
    by blast
  from demo_wf [of ONLINE] known demo_fits ok' run unknown nf show ?thesis by (intro conjI)
qed

end
